theory Spec2Isabelle
  imports Main "HOL-Library.Word" "HOL-Library.Sublist"
begin

section \<open>JavaScript strings\<close>

text \<open>
  A JavaScript string is a sequence of code units. The model uses \<^typ>\<open>string\<close>, a list
  of \<^typ>\<open>char\<close>, each \<^typ>\<open>char\<close> standing for the code unit of the same number
  (the Latin-1 range U+0000 .. U+00FF, which holds every literal of the two source files
  that the model keeps; the log lines, which hold other characters, are left out).
\<close>

definition isWhiteSpace :: "char \<Rightarrow> bool" where
  \<comment> \<open>WhiteSpace and LineTerminator of ECMAScript below U+0100: TAB, LF, VT, FF, CR, SP, NBSP.\<close>
  "isWhiteSpace c = (of_char c \<in> {9, 10, 11, 12, 13, 32, 160 :: nat})"

definition trim :: "string \<Rightarrow> string" where
  \<comment> \<open>\<^verbatim>\<open>String.prototype.trim\<close>\<close>
  "trim s = rev (dropWhile isWhiteSpace (rev (dropWhile isWhiteSpace s)))"

text \<open>\<^verbatim>\<open>s.includes(sep)\<close>: \<open>sep\<close> occurs in \<open>s\<close>.\<close>

fun includes_js :: "string \<Rightarrow> string \<Rightarrow> bool" where
  "includes_js sep [] = (sep = [])"
| "includes_js sep (c # cs) = (prefix sep (c # cs) \<or> includes_js sep cs)"

text \<open>
  The first occurrence of a non-empty \<open>sep\<close> in \<open>s\<close>: the text before it and the text
  after it.
\<close>

fun firstOccurrence :: "string \<Rightarrow> string \<Rightarrow> (string \<times> string) option" where
  "firstOccurrence sep [] = None"
| "firstOccurrence sep (c # cs) =
     (if prefix sep (c # cs) then Some ([], drop (length sep) (c # cs))
      else (case firstOccurrence sep cs of
              None \<Rightarrow> None
            | Some (before, rest) \<Rightarrow> Some (c # before, rest)))"

lemma firstOccurrence_shorter:
  "firstOccurrence sep s = Some (before, rest) \<Longrightarrow> sep \<noteq> [] \<Longrightarrow> length rest < length s"
  by (induction s arbitrary: before) (auto split: if_splits option.splits)

text \<open>\<^verbatim>\<open>s.split(sep)\<close> for a non-empty separator string.\<close>

function split_js :: "string \<Rightarrow> string \<Rightarrow> string list" where
  "split_js sep s =
     (if sep = [] then map (\<lambda>c. [c]) s
      else (case firstOccurrence sep s of
              None \<Rightarrow> [s]
            | Some (before, rest) \<Rightarrow> before # split_js sep rest))"
  by pat_completeness auto
termination
  by (relation "measure (\<lambda>(sep, s). length s)") (auto dest: firstOccurrence_shorter)

declare split_js.simps [simp del]

text \<open>\<^verbatim>\<open>xs[i]\<close> on an array: undefined (here \<open>None\<close>) out of range.\<close>

definition at_index :: "'a list \<Rightarrow> nat \<Rightarrow> 'a option" where
  "at_index xs i = (if i < length xs then Some (xs ! i) else None)"

text \<open>
  \<^verbatim>\<open>n.toString()\<close> and \<^verbatim>\<open>String(n)\<close> for a non-negative integer below \<open>10^21\<close>, where
  JavaScript writes all the decimal digits. It is given readings of \<^verbatim>\<open>Date.now()\<close> and
  their quotients only, which are below that bound.
\<close>

fun toString :: "nat \<Rightarrow> string" where
  "toString n =
     (if n < 10 then [''0123456789'' ! n]
      else toString (n div 10) @ [''0123456789'' ! (n mod 10)])"

declare toString.simps [simp del]

text \<open>\<^verbatim>\<open>n.toString(16)\<close> for a non-negative integer.\<close>

fun toString16 :: "nat \<Rightarrow> string" where
  "toString16 n =
     (if n < 16 then [''0123456789abcdef'' ! n]
      else toString16 (n div 16) @ [''0123456789abcdef'' ! (n mod 16)])"

declare toString16.simps [simp del]

definition padStart :: "nat \<Rightarrow> char \<Rightarrow> string \<Rightarrow> string" where
  \<comment> \<open>\<^verbatim>\<open>s.padStart(n, c)\<close> with a one-character filler\<close>
  "padStart n c s = replicate (n - length s) c @ s"

definition substring :: "nat \<Rightarrow> nat \<Rightarrow> string \<Rightarrow> string" where
  \<comment> \<open>\<^verbatim>\<open>s.substring(a, b)\<close> with \<open>a \<le> b\<close>\<close>
  "substring a b s = take (b - a) (drop a s)"

section \<open>Objects with string keys\<close>

text \<open>
  A \<^verbatim>\<open>Record<string, string>\<close> and a \<^verbatim>\<open>Map\<close> keep their keys in insertion order:
  an association list. Setting a key that is there replaces its value in place;
  setting a new key appends it.
\<close>

fun setKey :: "'k \<Rightarrow> 'v \<Rightarrow> ('k \<times> 'v) list \<Rightarrow> ('k \<times> 'v) list" where
  "setKey k v [] = [(k, v)]"
| "setKey k v (p # ps) = (if fst p = k then (k, v) # ps else p # setKey k v ps)"

type_synonym Headers = "(string \<times> string) list"

section \<open>Messages (src/app/utils/helpers.ts, extractMessageText, getLastUserMessageContent)\<close>

text \<open>
  \<^verbatim>\<open>Message\<close> and \<^verbatim>\<open>ContentPart\<close> are declared in \<^verbatim>\<open>models/schemas.ts\<close>; the two functions
  read the fields \<^verbatim>\<open>role\<close>, \<^verbatim>\<open>content\<close>, \<^verbatim>\<open>reasoning_content\<close> of a message and \<^verbatim>\<open>text\<close>
  of a part. \<^verbatim>\<open>content\<close> is a string, an array of parts, or anything else (absent, null).
\<close>

record ContentPart =
  part_type :: string
  part_text :: "string option"

datatype MessageContent =
    ContentString string
  | ContentParts "ContentPart list"
  | ContentOther

record Message =
  role :: string
  content :: MessageContent
  reasoning_content :: "string option"

definition extractMessageText :: "Message \<Rightarrow> string" where
  "extractMessageText message =
     (case content message of
        ContentString s \<Rightarrow> s
      | ContentParts parts \<Rightarrow>
          trim (concat (map (\<lambda>part. case part_text part of Some t \<Rightarrow> t | None \<Rightarrow> []) parts))
      | ContentOther \<Rightarrow>
          (case reasoning_content message of Some r \<Rightarrow> r | None \<Rightarrow> []))"

text \<open>
  The loop \<^verbatim>\<open>for (let i = messages.length - 1; i >= 0; i--)\<close>: the argument \<open>n\<close> is \<open>i + 1\<close>,
  and \<open>None\<close> is the loop running to its end without a \<^verbatim>\<open>return\<close>.
\<close>

fun lastUserLoop :: "Message list \<Rightarrow> nat \<Rightarrow> string option" where
  "lastUserLoop messages 0 = None"
| "lastUserLoop messages (Suc i) =
     (let msg = messages ! i in
      if role msg = ''user'' then
        (let txt = extractMessageText msg in
         if txt \<noteq> [] then Some txt else lastUserLoop messages i)
      else lastUserLoop messages i)"

definition getLastUserMessageContent :: "Message list \<Rightarrow> string" where
  "getLastUserMessageContent messages =
     (case lastUserLoop messages (length messages) of
        Some txt \<Rightarrow> txt
      | None \<Rightarrow>
          \<comment> \<open>\<^verbatim>\<open>messages.at(-1)\<close> is undefined on the empty array\<close>
          (case messages of [] \<Rightarrow> [] | _ \<Rightarrow> extractMessageText (last messages)))"

section \<open>Configuration, the platform and the module state\<close>

text \<open>
  \<^verbatim>\<open>core/config.ts\<close> is an external collaborator: the fields the two files read are the
  parameters of the model. \<open>CLIENT_HEADERS_Origin\<close> is \<^verbatim>\<open>config.CLIENT_HEADERS["Origin"]\<close>.
\<close>

record Config =
  DEBUG_LOGGING :: bool
  ANONYMOUS_MODE :: bool
  BACKUP_TOKEN :: string
  THINKING_PROCESSING :: string
  CLIENT_HEADERS_Origin :: string
  API_ENDPOINT :: string
  PRIMARY_MODEL :: string
  THINKING_MODEL :: string
  SEARCH_MODEL :: string
  AIR_MODEL :: string
  PRIMARY_MODEL_NEW :: string
  THINKING_MODEL_NEW :: string
  SEARCH_MODEL_NEW :: string

type_synonym byte = "8 word"

record UserAgentInstance =
  chrome :: string
  edge :: string
  firefox :: string
  safari :: string
  random :: string

record ZAIModelInfo =
  info_name :: "string option"
  created_at :: "int option"
  user_id :: "string option"
  info_more :: "(string \<times> string) list"

text \<open>
  \<^verbatim>\<open>ZAIModel\<close>; \<open>model_id\<close> is the field \<^verbatim>\<open>id\<close>, and \<open>other_fields\<close> holds the fields of the index
  signature \<^verbatim>\<open>[key: string]: unknown\<close>, each with its JSON text. Numbers of the model
  list are integers.
\<close>

record ZAIModel =
  model_id :: string
  name :: "string option"
  display_name :: "string option"
  created :: "int option"
  owned_by :: "string option"
  info :: "ZAIModelInfo option"
  other_fields :: "(string \<times> string) list"

datatype error =
    FetchFailed string  \<comment> \<open>\<^verbatim>\<open>fetch\<close> rejects: network failure, or the abort of \<^verbatim>\<open>AbortSignal.timeout\<close>\<close>
  | JsonFailed  \<comment> \<open>\<^verbatim>\<open>response.json()\<close> rejects, or a property is read from null\<close>
  | InvalidURL  \<comment> \<open>\<^verbatim>\<open>new URL(s)\<close> throws\<close>
  | AnonTokenStatus nat  \<comment> \<open>\<^verbatim>\<open>new Error(`anon token status=${response.status}`)\<close>\<close>
  | AnonTokenEmpty  \<comment> \<open>\<^verbatim>\<open>new Error("anon token empty")\<close>\<close>
  | DataError  \<comment> \<open>\<^verbatim>\<open>crypto.subtle.importKey\<close> rejects: the HMAC key has length zero\<close>

record URL =
  href :: string
  searchParams :: "(string \<times> string) list"

text \<open>
  A value of \<^verbatim>\<open>upstreamReq.params\<close>. A number is given by the text that \<^verbatim>\<open>String(value)\<close>
  writes for it (decimal digits, a fraction, exponent notation from \<^verbatim>\<open>1e21\<close> on): the
  conversion of a number to a string is the platform's.
\<close>

datatype ParamValue = PUndefined | PNull | PString string | PNumber string | PBoolean bool

text \<open>
  \<^verbatim>\<open>UpstreamRequest\<close> (declared in \<^verbatim>\<open>models/schemas.ts\<close>): \<open>messages\<close> is \<open>None\<close> when the
  field is not an array, \<open>params\<close> is \<open>None\<close> when the field is absent or not an object,
  \<open>rest_fields\<close> are the other fields, each with its JSON text.
\<close>

record UpstreamRequest =
  messages :: "Message list option"
  params :: "(string \<times> ParamValue) list option"
  rest_fields :: "(string \<times> string) list"

datatype RequestBody = NoBody | JsonBody UpstreamRequest

text \<open>
  The argument of \<^verbatim>\<open>fetch\<close>. \<open>req_url\<close> is the URL before \<^verbatim>\<open>url.toString()\<close>, \<open>req_body\<close>
  the payload before \<^verbatim>\<open>JSON.stringify\<close>, \<open>req_timeout\<close> the milliseconds of
  \<^verbatim>\<open>AbortSignal.timeout\<close>.
\<close>

record Request =
  req_url :: URL
  req_method :: string
  req_headers :: Headers
  req_body :: RequestBody
  req_timeout :: nat

text \<open>
  A response: its status, and what \<^verbatim>\<open>response.json()\<close> gives, of which the code reads
  the fields \<^verbatim>\<open>token\<close> and \<^verbatim>\<open>data\<close>.
\<close>

record ResponseJson =
  json_token :: "string option"
  json_data :: "ZAIModel list option"

record Response =
  resp_status :: nat
  resp_json :: "error + ResponseJson"

definition ok :: "Response \<Rightarrow> bool" where
  \<comment> \<open>\<^verbatim>\<open>response.ok\<close>\<close>
  "ok response = (200 \<le> resp_status response \<and> resp_status response \<le> 299)"

text \<open>
  The world of a call: the module variable \<^verbatim>\<open>_userAgentInstance\<close> and what the runtime
  will answer: the successive readings of \<^verbatim>\<open>Date.now()\<close>, the successive random draws,
  the successive values of \<^verbatim>\<open>crypto.randomUUID()\<close>, the answers of the network to the
  successive calls of \<^verbatim>\<open>fetch\<close>, the HMAC-SHA-256 of \<^verbatim>\<open>crypto.subtle\<close> (key bytes, message
  bytes) and the URL parser. Each effect takes the head of its stream. The lines written by
  \<^verbatim>\<open>debugLog\<close> are not part of the model.
\<close>

record World =
  userAgentInstance :: "UserAgentInstance option"
  clock :: "nat \<Rightarrow> nat"
  entropy :: "nat \<Rightarrow> nat"
  uuids :: "nat \<Rightarrow> string"
  network :: "nat \<Rightarrow> Request \<Rightarrow> error + Response"
  subtleSign :: "byte list \<Rightarrow> byte list \<Rightarrow> byte list"
  parseURL :: "string \<Rightarrow> URL option"

definition Date_now :: "World \<Rightarrow> nat \<times> World" where
  "Date_now w = (clock w 0, w\<lparr>clock := \<lambda>k. clock w (Suc k)\<rparr>)"

definition randomIndex :: "nat \<Rightarrow> World \<Rightarrow> nat \<times> World" where
  \<comment> \<open>\<^verbatim>\<open>Math.floor(Math.random() * n)\<close>: \<^verbatim>\<open>Math.random()\<close> is in [0, 1), the index is below \<open>n\<close>\<close>
  "randomIndex n w = (entropy w 0 mod n, w\<lparr>entropy := \<lambda>k. entropy w (Suc k)\<rparr>)"

definition getRandomValues :: "nat \<Rightarrow> World \<Rightarrow> byte list \<times> World" where
  \<comment> \<open>\<^verbatim>\<open>crypto.getRandomValues\<close> on a \<^verbatim>\<open>Uint8Array\<close> of \<open>n\<close> bytes\<close>
  "getRandomValues n w =
     (map (\<lambda>k. of_nat (entropy w k)) [0..<n], w\<lparr>entropy := \<lambda>k. entropy w (n + k)\<rparr>)"

definition randomUUID :: "World \<Rightarrow> string \<times> World" where
  "randomUUID w = (uuids w 0, w\<lparr>uuids := \<lambda>k. uuids w (Suc k)\<rparr>)"

definition fetch :: "Request \<Rightarrow> World \<Rightarrow> (error + Response) \<times> World" where
  "fetch request w = (network w 0 request, w\<lparr>network := \<lambda>k. network w (Suc k)\<rparr>)"

section \<open>Browser headers (src/app/utils/helpers.ts, getUserAgentInstance, getBrowserHeaders)\<close>

definition userAgents :: "string list" where
  "userAgents =
    [''Mozilla/5.0 (Windows NT 10.0; Win64; x64) AppleWebKit/537.36 (KHTML, like Gecko) Chrome/139.0.0.0 Safari/537.36'',
     ''Mozilla/5.0 (Windows NT 10.0; Win64; x64) AppleWebKit/537.36 (KHTML, like Gecko) Chrome/139.0.0.0 Safari/537.36 Edg/139.0.0.0'',
     ''Mozilla/5.0 (Macintosh; Intel Mac OS X 10_15_7) AppleWebKit/537.36 (KHTML, like Gecko) Chrome/139.0.0.0 Safari/537.36'',
     ''Mozilla/5.0 (X11; Linux x86_64) AppleWebKit/537.36 (KHTML, like Gecko) Chrome/139.0.0.0 Safari/537.36'']"

definition newUserAgentInstance :: "nat \<Rightarrow> UserAgentInstance" where
  \<comment> \<open>the object literal of \<^verbatim>\<open>getUserAgentInstance\<close>; \<open>i\<close> is the random index into \<^verbatim>\<open>userAgents\<close>\<close>
  "newUserAgentInstance i =
     \<lparr>chrome = userAgents ! 0,
      edge = userAgents ! 1,
      firefox = ''Mozilla/5.0 (Windows NT 10.0; Win64; x64; rv:109.0) Gecko/20100101 Firefox/121.0'',
      safari = ''Mozilla/5.0 (Macintosh; Intel Mac OS X 10_15_7) AppleWebKit/605.1.15 (KHTML, like Gecko) Version/17.1 Safari/605.1.15'',
      random = userAgents ! i\<rparr>"

definition getUserAgentInstance :: "World \<Rightarrow> UserAgentInstance \<times> World" where
  "getUserAgentInstance w =
     (case userAgentInstance w of
        None \<Rightarrow>
          (let (i, w1) = randomIndex (length userAgents) w;
               inst = newUserAgentInstance i
           in (inst, w1\<lparr>userAgentInstance := Some inst\<rparr>))
      | Some inst \<Rightarrow> (inst, w))"

definition browserChoices :: "string list" where
  "browserChoices = [''chrome'', ''chrome'', ''chrome'', ''edge'', ''edge'', ''firefox'', ''safari'']"

definition chooseBrowserType :: "World \<Rightarrow> string \<times> World" where
  \<comment> \<open>\<^verbatim>\<open>browserChoices[Math.floor(Math.random() * browserChoices.length)]\<close>\<close>
  "chooseBrowserType w =
     (let (k, w1) = randomIndex (length browserChoices) w in (browserChoices ! k, w1))"

definition selectUserAgent :: "UserAgentInstance \<Rightarrow> string \<Rightarrow> string" where
  \<comment> \<open>the \<^verbatim>\<open>switch (browserType)\<close>; reading a field does not throw, the \<^verbatim>\<open>catch\<close> is dead\<close>
  "selectUserAgent ua browserType =
     (if browserType = ''chrome'' then chrome ua
      else if browserType = ''edge'' then edge ua
      else if browserType = ''firefox'' then firefox ua
      else if browserType = ''safari'' then safari ua
      else random ua)"

definition versionAfter :: "string \<Rightarrow> string \<Rightarrow> string option" where
  \<comment> \<open>\<^verbatim>\<open>userAgent.split(marker)[1].split(".")[0]\<close>; \<open>None\<close> when \<^verbatim>\<open>[1]\<close> is undefined and
      \<^verbatim>\<open>.split\<close> on it throws\<close>
  "versionAfter marker userAgent =
     (case at_index (split_js marker userAgent) 1 of
        None \<Rightarrow> None
      | Some rest \<Rightarrow> at_index (split_js ''.'' rest) 0)"

definition edgeBrand :: "string \<Rightarrow> string \<Rightarrow> string" where
  \<open>edgeBrand edgeVersion chromeVersion =
     ''"Microsoft Edge";v="'' @ edgeVersion @ ''", "Chromium";v="'' @ chromeVersion @
     ''", "Not_A Brand";v="24"''\<close>

definition chromiumBrand :: "string \<Rightarrow> string" where
  \<open>chromiumBrand chromeVersion =
     ''"Not_A Brand";v="8", "Chromium";v="'' @ chromeVersion @ ''", "Google Chrome";v="'' @
     chromeVersion @ ''"''\<close>

definition secChUaOf :: "string \<Rightarrow> string option" where
  \<comment> \<open>the version extraction and the \<^verbatim>\<open>secChUa\<close> chain of \<^verbatim>\<open>getBrowserHeaders\<close>\<close>
  "secChUaOf userAgent =
     (let chromeVersion =
            (if includes_js ''Chrome/'' userAgent then
               (case versionAfter ''Chrome/'' userAgent of Some v \<Rightarrow> v | None \<Rightarrow> ''139'')
             else ''139'')
      in if includes_js ''Edg/'' userAgent then
           (case versionAfter ''Edg/'' userAgent of
              Some edgeVersion \<Rightarrow> Some (edgeBrand edgeVersion chromeVersion)
            | None \<Rightarrow> Some (chromiumBrand chromeVersion))
         else if includes_js ''Firefox/'' userAgent then None
         else Some (chromiumBrand chromeVersion))"

definition baseHeaders :: "Config \<Rightarrow> string \<Rightarrow> Headers" where
  \<open>baseHeaders cfg userAgent =
     [(''Content-Type'', ''application/json''),
      (''Accept'', ''application/json, text/event-stream''),
      (''User-Agent'', userAgent),
      (''Accept-Language'', ''zh-CN,zh;q=0.9,en;q=0.8,en-US;q=0.7''),
      (''sec-ch-ua-mobile'', ''?0''),
      (''sec-ch-ua-platform'', ''"Windows"''),
      (''sec-fetch-dest'', ''empty''),
      (''sec-fetch-mode'', ''cors''),
      (''sec-fetch-site'', ''same-origin''),
      (''X-FE-Version'', ''prod-fe-1.0.79''),
      (''Origin'', CLIENT_HEADERS_Origin cfg),
      (''Cache-Control'', ''no-cache''),
      (''Pragma'', ''no-cache'')]\<close>

definition getBrowserHeaders :: "Config \<Rightarrow> string \<Rightarrow> World \<Rightarrow> Headers \<times> World" where
  "getBrowserHeaders cfg refererChatId w =
     (let (ua, w1) = getUserAgentInstance w;
          (browserType, w2) = chooseBrowserType w1;
          userAgent = selectUserAgent ua browserType;
          secChUa = secChUaOf userAgent;
          headers0 = baseHeaders cfg userAgent;
          headers1 =
            (case secChUa of
               Some v \<Rightarrow> if v \<noteq> [] then setKey ''sec-ch-ua'' v headers0 else headers0
             | None \<Rightarrow> headers0);
          headers2 =
            (if refererChatId \<noteq> [] then
               setKey ''Referer'' (CLIENT_HEADERS_Origin cfg @ ''/c/'' @ refererChatId) headers1
             else headers1)
      in (headers2, w2))"

section \<open>Signatures (src/app/utils/helpers.ts)\<close>

definition utf8 :: "string \<Rightarrow> byte list" where
  \<comment> \<open>\<^verbatim>\<open>new TextEncoder().encode(s)\<close> on code units below U+0100\<close>
  "utf8 s =
     concat (map (\<lambda>c. let n = (of_char c :: nat) in
                        if n < 128 then [of_nat n]
                        else [of_nat (192 + n div 64), of_nat (128 + n mod 64)]) s)"

definition byteHex :: "byte \<Rightarrow> string" where
  \<comment> \<open>\<^verbatim>\<open>b.toString(16).padStart(2, "0")\<close>\<close>
  "byteHex b = padStart 2 (CHR ''0'') (toString16 (unat b))"

definition hexEncode :: "byte list \<Rightarrow> string" where
  \<comment> \<open>\<^verbatim>\<open>Array.from(bytes).map((b) => b.toString(16).padStart(2, "0")).join("")\<close>\<close>
  "hexEncode bytes = concat (map byteHex bytes)"

definition newline :: string where
  "newline = [CHR 0x0A]"

definition importKey :: "byte list \<Rightarrow> error + byte list" where
  \<comment> \<open>\<^verbatim>\<open>crypto.subtle.importKey("raw", keyData, { name: "HMAC", hash: "SHA-256" }, false, ["sign"])\<close>:
      a key of length zero is refused\<close>
  "importKey keyData = (if keyData = [] then Inl DataError else Inr keyData)"

text \<open>
  \<^verbatim>\<open>generateLegacySignatureHeaders(token, body = "", method = "POST")\<close>; its one caller
  gives the three arguments. The clock and the random bytes are read before the key is
  imported; with an empty token \<^verbatim>\<open>importKey\<close> throws, and nothing catches it here.
\<close>

definition generateLegacySignatureHeaders ::
  "string \<Rightarrow> string \<Rightarrow> string \<Rightarrow> World \<Rightarrow> (error + Headers) \<times> World" where
  "generateLegacySignatureHeaders token body method w =
     (let (now, w1) = Date_now w;
          timestampStr = toString now;
          (randomBytes, w2) = getRandomValues 8 w1;
          nonce = substring 0 16 (concat (map byteHex randomBytes));
          signString = method @ newline @ timestampStr @ newline @ nonce @ newline @ body
      in (case importKey (utf8 token) of
            Inl e \<Rightarrow> (Inl e, w2)
          | Inr key \<Rightarrow>
              (let signatureHex = hexEncode (subtleSign w2 key (utf8 signString))
               in (Inr [(''X-Timestamp'', timestampStr), (''X-Nonce'', nonce),
                        (''X-Signature'', signatureHex)], w2))))"

text \<open>
  \<^verbatim>\<open>hmacSha256Hex\<close> is called with two keys only: the literal \<^verbatim>\<open>"junjie"\<close> and the hex text
  of an HMAC-SHA-256 digest. Neither is empty, so its \<^verbatim>\<open>importKey\<close> does not throw.
\<close>

definition hmacSha256Hex :: "World \<Rightarrow> string \<Rightarrow> string \<Rightarrow> string" where
  "hmacSha256Hex w key message = hexEncode (subtleSign w (utf8 key) (utf8 message))"

record ChatSignature =
  signature :: string
  timestamp :: nat

definition chatIntermediateKey :: "World \<Rightarrow> nat \<Rightarrow> string" where
  \<comment> \<open>\<^verbatim>\<open>n\<close> and \<^verbatim>\<open>intermediateKey\<close> of \<^verbatim>\<open>generateChatSignature\<close>\<close>
  "chatIntermediateKey w timestampMs =
     (let n = timestampMs div (5 * 60 * 1000) in hmacSha256Hex w ''junjie'' (toString n))"

definition generateChatSignature :: "string \<Rightarrow> string \<Rightarrow> World \<Rightarrow> ChatSignature \<times> World" where
  "generateChatSignature e t w =
     (let (timestampMs, w1) = Date_now w;
          intermediateKey = chatIntermediateKey w1 timestampMs;
          finalSignature =
            hmacSha256Hex w1 intermediateKey (e @ ''|'' @ t @ ''|'' @ toString timestampMs)
      in (\<lparr>signature = finalSignature, timestamp = timestampMs\<rparr>, w1))"

section \<open>Tokens (src/app/utils/helpers.ts, getAnonymousToken, getAuthToken)\<close>

definition objectAssign :: "Headers \<Rightarrow> Headers \<Rightarrow> Headers" where
  \<comment> \<open>\<^verbatim>\<open>Object.assign(target, source)\<close>\<close>
  "objectAssign target source = foldl (\<lambda>h (k, v). setKey k v h) target source"

definition plainURL :: "string \<Rightarrow> URL" where
  \<comment> \<open>a URL given to \<^verbatim>\<open>fetch\<close> as a string\<close>
  "plainURL s = \<lparr>href = s, searchParams = []\<rparr>"

definition anonymousTokenRequest :: "Config \<Rightarrow> World \<Rightarrow> (error + Request) \<times> World" where
  \<comment> \<open>the headers and the argument of \<^verbatim>\<open>fetch\<close> in \<^verbatim>\<open>getAnonymousToken\<close>; the signature
      headers are made before the \<^verbatim>\<open>try\<close>\<close>
  "anonymousTokenRequest cfg w =
     (let (headers0, w1) = getBrowserHeaders cfg [] w;
          headers1 = setKey ''Accept'' ''*/*'' headers0;
          headers2 = setKey ''Accept-Language'' ''zh-CN,zh;q=0.9'' headers1;
          headers3 = setKey ''Referer'' (CLIENT_HEADERS_Origin cfg @ ''/'') headers2;
          tempToken = ''anonymous''
      in (case generateLegacySignatureHeaders tempToken [] ''GET'' w1 of
            (Inl e, w2) \<Rightarrow> (Inl e, w2)
          | (Inr signatureHeaders, w2) \<Rightarrow>
              (let headers4 = objectAssign headers3 signatureHeaders
               in (Inr \<lparr>req_url = plainURL (CLIENT_HEADERS_Origin cfg @ ''/api/v1/auths/''),
                        req_method = ''GET'',
                        req_headers = headers4,
                        req_body = NoBody,
                        req_timeout = 10000\<rparr>, w2))))"

definition getAnonymousToken :: "Config \<Rightarrow> World \<Rightarrow> (error + string) \<times> World" where
  "getAnonymousToken cfg w =
     (case anonymousTokenRequest cfg w of
        (Inl e, w1) \<Rightarrow> (Inl e, w1)
      | (Inr request, w1) \<Rightarrow>
          (let (outcome, w2) = fetch request w1
           in (case outcome of
                 Inl e \<Rightarrow> Inl e
               | Inr response \<Rightarrow>
                   if \<not> ok response then Inl (AnonTokenStatus (resp_status response))
                   else (case resp_json response of
                           Inl e \<Rightarrow> Inl e
                         | Inr body \<Rightarrow>
                             (case json_token body of
                                None \<Rightarrow> Inl AnonTokenEmpty
                              | Some t \<Rightarrow> if t = [] then Inl AnonTokenEmpty else Inr t)),
               w2)))"

text \<open>
  \<^verbatim>\<open>getAuthToken\<close>: the \<^verbatim>\<open>catch\<close> logs and falls through to the \<^verbatim>\<open>return\<close> of the backup
  token.
\<close>

definition getAuthToken :: "Config \<Rightarrow> World \<Rightarrow> (error + string) \<times> World" where
  "getAuthToken cfg w =
     (if ANONYMOUS_MODE cfg then
        (case getAnonymousToken cfg w of
           (Inr t, w1) \<Rightarrow> (Inr t, w1)
         | (Inl e, w1) \<Rightarrow> (Inr (BACKUP_TOKEN cfg), w1))
      else (Inr (BACKUP_TOKEN cfg), w))"

section \<open>The upstream call (src/app/utils/helpers.ts, callUpstreamApi)\<close>

fun searchParamsSet :: "string \<Rightarrow> string \<Rightarrow> (string \<times> string) list \<Rightarrow> (string \<times> string) list" where
  \<comment> \<open>\<^verbatim>\<open>url.searchParams.set(k, v)\<close>: the first pair named \<open>k\<close> takes the value, the others go\<close>
  "searchParamsSet k v [] = [(k, v)]"
| "searchParamsSet k v (p # ps) =
     (if fst p = k then (k, v) # filter (\<lambda>q. fst q \<noteq> k) ps else p # searchParamsSet k v ps)"

definition setParam :: "string \<Rightarrow> string \<Rightarrow> URL \<Rightarrow> URL" where
  "setParam k v u = u\<lparr>searchParams := searchParamsSet k v (searchParams u)\<rparr>"

fun paramString :: "ParamValue \<Rightarrow> string" where
  \<comment> \<open>\<^verbatim>\<open>String(value)\<close>\<close>
  "paramString PUndefined = ''undefined''"
| "paramString PNull = ''null''"
| "paramString (PString s) = s"
| "paramString (PNumber numberText) = numberText"
| "paramString (PBoolean b) = (if b then ''true'' else ''false'')"

definition addParams :: "(string \<times> ParamValue) list \<Rightarrow> URL \<Rightarrow> URL" where
  \<comment> \<open>the loop over \<^verbatim>\<open>Object.entries(upstreamReq.params)\<close>\<close>
  "addParams entries u =
     foldl (\<lambda>u' (k, v). if v \<noteq> PUndefined \<and> v \<noteq> PNull then setParam k (paramString v) u' else u')
       u entries"

definition upstreamCallRequest ::
  "Config \<Rightarrow> UpstreamRequest \<Rightarrow> string \<Rightarrow> string \<Rightarrow> World \<Rightarrow> (error + Request) \<times> World" where
  \<comment> \<open>\<^verbatim>\<open>callUpstreamApi\<close> up to its \<^verbatim>\<open>fetch\<close>: the argument of \<^verbatim>\<open>fetch\<close>\<close>
  "upstreamCallRequest cfg upstreamReq chatId authToken w =
     (let (headers0, w1) = getBrowserHeaders cfg chatId w;
          headers1 = setKey ''Authorization'' (''Bearer '' @ authToken) headers0;
          (requestId, w2) = randomUUID w1;
          (now, w3) = Date_now w2;
          timestampStr = toString now;
          (userId, w4) = randomUUID w3;
          msgs = (case messages upstreamReq of Some ms \<Rightarrow> ms | None \<Rightarrow> []);
          lastMessageContent = getLastUserMessageContent msgs;
          signatureSource =
            ''requestId,'' @ requestId @ '',timestamp,'' @ timestampStr @ '',user_id,'' @ userId;
          (sig, w5) = generateChatSignature signatureSource lastMessageContent w4;
          headers2 = setKey ''X-Signature'' (signature sig) headers1
      in (case parseURL w5 (API_ENDPOINT cfg) of
            None \<Rightarrow> (Inl InvalidURL, w5)
          | Some url0 \<Rightarrow>
              (let url1 = setParam ''requestId'' requestId url0;
                   url2 = setParam ''timestamp'' timestampStr url1;
                   url3 = setParam ''user_id'' userId url2;
                   url4 = setParam ''signature_timestamp'' (toString (timestamp sig)) url3;
                   url5 = (case params upstreamReq of
                             Some entries \<Rightarrow> addParams entries url4
                           | None \<Rightarrow> url4);
                   requestPayload = upstreamReq\<lparr>params := None\<rparr>
               in (Inr \<lparr>req_url = url5,
                        req_method = ''POST'',
                        req_headers = headers2,
                        req_body = JsonBody requestPayload,
                        req_timeout = 60000\<rparr>, w5))))"

text \<open>
  \<^verbatim>\<open>callUpstreamApi\<close>: what \<^verbatim>\<open>fetch\<close> gives is returned as it is; there is no \<^verbatim>\<open>try\<close>, and
  \<^verbatim>\<open>response.status\<close> is only logged.
\<close>

definition callUpstreamApi ::
  "Config \<Rightarrow> UpstreamRequest \<Rightarrow> string \<Rightarrow> string \<Rightarrow> World \<Rightarrow> (error + Response) \<times> World" where
  "callUpstreamApi cfg upstreamReq chatId authToken w =
     (case upstreamCallRequest cfg upstreamReq chatId authToken w of
        (Inl e, w1) \<Rightarrow> (Inl e, w1)
      | (Inr request, w1) \<Rightarrow> fetch request w1)"

section \<open>The model list (src/app/utils/model_fetcher.ts)\<close>

definition modelsRequest :: "Config \<Rightarrow> string \<Rightarrow> World \<Rightarrow> Request \<times> World" where
  \<comment> \<open>the headers and the argument of \<^verbatim>\<open>fetch\<close> in \<^verbatim>\<open>fetchLatestModels\<close>\<close>
  "modelsRequest cfg authToken w =
     (let (headers0, w1) = getBrowserHeaders cfg [] w;
          headers1 = setKey ''Accept'' ''application/json'' headers0;
          headers2 = setKey ''Authorization'' (''Bearer '' @ authToken) headers1;
          headers3 = setKey ''User-Agent''
            ''Mozilla/5.0 (X11; Linux x86_64) AppleWebKit/537.36 (KHTML, like Gecko) Chrome/140.0.0.0 Safari/537.36 Edg/140.0.0.0''
            headers2
      in (\<lparr>req_url = plainURL ''https://chat.z.ai/api/models'',
           req_method = ''GET'',
           req_headers = headers3,
           req_body = NoBody,
           req_timeout = 10000\<rparr>, w1))"

text \<open>
  \<^verbatim>\<open>fetchLatestModels\<close>: the inner \<^verbatim>\<open>try\<close> around \<^verbatim>\<open>getAnonymousToken\<close> and the outer \<^verbatim>\<open>try\<close>
  around the rest both end in \<^verbatim>\<open>return []\<close>.
\<close>

definition fetchLatestModels :: "Config \<Rightarrow> World \<Rightarrow> (error + ZAIModel list) \<times> World" where
  "fetchLatestModels cfg w =
     (case getAnonymousToken cfg w of
        (Inl tokenError, w1) \<Rightarrow> (Inr [], w1)
      | (Inr authToken, w1) \<Rightarrow>
          (let (request, w2) = modelsRequest cfg authToken w1;
               (outcome, w3) = fetch request w2
           in (case outcome of
                 Inl e \<Rightarrow> Inr []
               | Inr response \<Rightarrow>
                   if \<not> ok response then Inr []
                   else (case resp_json response of
                           Inl e \<Rightarrow> Inr []
                         | Inr body \<Rightarrow>
                             (case json_data body of Some ms \<Rightarrow> Inr ms | None \<Rightarrow> Inr [])),
               w3)))"

definition defaultModel :: "string \<Rightarrow> int \<Rightarrow> ZAIModel" where
  \<comment> \<open>one object literal of \<^verbatim>\<open>getDefaultModels\<close>\<close>
  "defaultModel modelName currentTime =
     \<lparr>model_id = modelName, name = Some modelName, display_name = None,
      created = Some currentTime, owned_by = Some ''z.ai'', info = None, other_fields = []\<rparr>"

definition getDefaultModels :: "Config \<Rightarrow> World \<Rightarrow> ZAIModel list \<times> World" where
  "getDefaultModels cfg w =
     (let (now, w1) = Date_now w;
          currentTime = int (now div 1000)
      in ([defaultModel (PRIMARY_MODEL cfg) currentTime,
           defaultModel (THINKING_MODEL cfg) currentTime,
           defaultModel (SEARCH_MODEL cfg) currentTime,
           defaultModel (AIR_MODEL cfg) currentTime,
           defaultModel (PRIMARY_MODEL_NEW cfg) currentTime,
           defaultModel (THINKING_MODEL_NEW cfg) currentTime,
           defaultModel (SEARCH_MODEL_NEW cfg) currentTime], w1))"

text \<open>
  The left operand of \<^verbatim>\<open>a || b\<close>, an optional string or number: it is taken when it is
  truthy (a non-empty string, a number other than 0), and \<open>None\<close> stands for the falsy
  operand, after which \<^verbatim>\<open>b\<close> is evaluated.
\<close>

definition truthyString :: "string option \<Rightarrow> string option" where
  "truthyString v = (case v of Some s \<Rightarrow> if s = [] then None else Some s | None \<Rightarrow> None)"

definition truthyNumber :: "int option \<Rightarrow> int option" where
  "truthyNumber v = (case v of Some n \<Rightarrow> if n = 0 then None else Some n | None \<Rightarrow> None)"

definition mergedEntry :: "ZAIModel \<Rightarrow> World \<Rightarrow> ZAIModel \<times> World" where
  \<comment> \<open>the body of \<^verbatim>\<open>latestModels.forEach\<close>: the object given to \<^verbatim>\<open>modelMap.set\<close>\<close>
  "mergedEntry model w =
     (let modelId = model_id model;
          infoName = (case info model of Some i \<Rightarrow> info_name i | None \<Rightarrow> None);
          infoCreated = (case info model of Some i \<Rightarrow> created_at i | None \<Rightarrow> None);
          infoUser = (case info model of Some i \<Rightarrow> user_id i | None \<Rightarrow> None);
          modelName =
            (case truthyString (name model) of
               Some s \<Rightarrow> s
             | None \<Rightarrow> (case truthyString infoName of Some s \<Rightarrow> s | None \<Rightarrow> modelId));
          (createdValue, w1) =
            (case truthyNumber (created model) of
               Some n \<Rightarrow> (n, w)
             | None \<Rightarrow>
                 (case truthyNumber infoCreated of
                    Some n \<Rightarrow> (n, w)
                  | None \<Rightarrow> (let (now, w') = Date_now w in (int (now div 1000), w'))));
          owner =
            (case truthyString (owned_by model) of
               Some s \<Rightarrow> s
             | None \<Rightarrow> (case truthyString infoUser of Some s \<Rightarrow> s | None \<Rightarrow> ''z.ai''))
      in (\<lparr>model_id = modelId, name = Some modelName, display_name = None,
           created = Some createdValue, owned_by = Some owner, info = None,
           other_fields = []\<rparr>, w1))"

fun overlayModels ::
  "ZAIModel list \<Rightarrow> (string \<times> ZAIModel) list \<Rightarrow> World \<Rightarrow> (string \<times> ZAIModel) list \<times> World" where
  "overlayModels [] modelMap w = (modelMap, w)"
| "overlayModels (model # rest) modelMap w =
     (let (entry, w1) = mergedEntry model w
      in overlayModels rest (setKey (model_id model) entry modelMap) w1)"

definition addDefaults :: "ZAIModel list \<Rightarrow> (string \<times> ZAIModel) list" where
  \<comment> \<open>\<^verbatim>\<open>defaultModels.forEach(model => modelMap.set(model.id, model))\<close> on the new map\<close>
  "addDefaults defaultModels = foldl (\<lambda>modelMap model. setKey (model_id model) model modelMap) [] defaultModels"

text \<open>
  \<^verbatim>\<open>getAvailableModels\<close>, with the function it awaits for the latest models as a parameter:
  the source calls \<^verbatim>\<open>fetchLatestModels\<close>.
\<close>

definition getAvailableModelsFrom ::
  "(World \<Rightarrow> (error + ZAIModel list) \<times> World) \<Rightarrow> Config \<Rightarrow> World \<Rightarrow>
     (error + ZAIModel list) \<times> World" where
  "getAvailableModelsFrom fetcher cfg w =
     (let (defaultModels, w1) = getDefaultModels cfg w
      in (case fetcher w1 of
            (Inl e, w2) \<Rightarrow> (Inr defaultModels, w2)
          | (Inr latestModels, w2) \<Rightarrow>
              if length latestModels > 0 then
                (let (modelMap, w3) = overlayModels latestModels (addDefaults defaultModels) w2
                 in (Inr (map snd modelMap), w3))
              else (Inr defaultModels, w2)))"

definition getAvailableModels :: "Config \<Rightarrow> World \<Rightarrow> (error + ZAIModel list) \<times> World" where
  "getAvailableModels cfg w = getAvailableModelsFrom (fetchLatestModels cfg) cfg w"

section \<open>Thinking content (src/app/utils/helpers.ts, transformThinkingContent)\<close>

text \<open>
  \<^verbatim>\<open>s.replace(/re/g, rep)\<close> for a regular expression whose matches are never empty. The
  expression is given by its matcher: on a suffix of the text, the length of the match
  that starts at the head of the suffix, if there is one. The scan goes from left to
  right, replaces a match and goes on after it, and copies a character where no match
  starts.
\<close>

fun replaceMatches :: "(string \<Rightarrow> nat option) \<Rightarrow> string \<Rightarrow> string \<Rightarrow> string" where
  "replaceMatches m rep [] = []"
| "replaceMatches m rep (c # cs) =
     (case m (c # cs) of
        None \<Rightarrow> c # replaceMatches m rep cs
      | Some n \<Rightarrow> rep @ replaceMatches m rep (drop (n - 1) cs))"

definition literal :: "string \<Rightarrow> string \<Rightarrow> nat option" where
  \<comment> \<open>a regular expression that is one literal text, such as \<^verbatim>\<open>/<\/thinking>/\<close>\<close>
  "literal lit s = (if lit \<noteq> [] \<and> prefix lit s then Some (length lit) else None)"

definition summaryBlock :: "string \<Rightarrow> nat option" where
  \<comment> \<open>\<^verbatim>\<open>/<summary>[\s\S]*?<\/summary>/\<close>: the opening tag, then up to the first closing tag\<close>
  "summaryBlock s =
     (if prefix ''<summary>'' s then
        (case firstOccurrence ''</summary>'' (drop (length ''<summary>'') s) of
           None \<Rightarrow> None
         | Some (inner, rest) \<Rightarrow>
             Some (length ''<summary>'' + length inner + length ''</summary>''))
      else None)"

definition detailsOpen :: "string \<Rightarrow> nat option" where
  \<comment> \<open>\<^verbatim>\<open>/<details[^>]*>/\<close>: the text \<^verbatim>\<open><details\<close>, then up to the next \<^verbatim>\<open>>\<close>\<close>
  "detailsOpen s =
     (if prefix ''<details'' s then
        (let attrs = takeWhile (\<lambda>c. c \<noteq> CHR ''>'') (drop (length ''<details'') s)
         in if length ''<details'' + length attrs < length s
            then Some (length ''<details'' + length attrs + 1)
            else None)
      else None)"

definition isLineTerminator :: "char \<Rightarrow> bool" where
  \<comment> \<open>LineTerminator of ECMAScript below U+0100: LF, CR\<close>
  "isLineTerminator c = (of_char c \<in> {10, 13 :: nat})"

text \<open>
  \<^verbatim>\<open>s.replace(/^> /gm, '')\<close>: with the flag \<^verbatim>\<open>m\<close>, \<^verbatim>\<open>^\<close> matches at the start of the text and
  after a line terminator. \<open>atStart\<close> says whether the head of the text is such a place.
\<close>

fun removeQuotePrefix :: "bool \<Rightarrow> string \<Rightarrow> string" where
  "removeQuotePrefix atStart [] = []"
| "removeQuotePrefix atStart (c # cs) =
     (if atStart \<and> prefix ''> '' (c # cs) then removeQuotePrefix False (drop 1 cs)
      else c # removeQuotePrefix (isLineTerminator c) cs)"

definition transformThinkingContent :: "Config \<Rightarrow> string \<Rightarrow> string" where
  "transformThinkingContent cfg contentStr =
     (let c1 = replaceMatches summaryBlock [] contentStr;
          c2 = replaceMatches (literal ''</Full>'') []
                 (replaceMatches (literal ''<Full>'') []
                    (replaceMatches (literal ''</thinking>'') [] c1));
          c3 = trim c2;
          c4 = (if THINKING_PROCESSING cfg = ''think'' then
                  replaceMatches (literal ''</details>'') ''</span>''
                    (replaceMatches detailsOpen ''<span>'' c3)
                else if THINKING_PROCESSING cfg = ''strip'' then
                  replaceMatches (literal ''</details>'') []
                    (replaceMatches detailsOpen [] c3)
                else c3);
          c5 = removeQuotePrefix True c4;
          c6 = replaceMatches (literal (newline @ ''> '')) newline c5
      in trim c6)"

section \<open>Auxiliary definitions\<close>

text \<open>
  The module variable \<^verbatim>\<open>_userAgentInstance\<close> is null or holds an object built by
  \<^verbatim>\<open>getUserAgentInstance\<close>: nothing else assigns it.
\<close>

definition cacheReachable :: "World \<Rightarrow> bool" where
  "cacheReachable w =
     (case userAgentInstance w of
        None \<Rightarrow> True
      | Some inst \<Rightarrow> inst \<in> set (map newUserAgentInstance [0..<length userAgents]))"

text \<open>
  The two conditional assignments at the end of \<^verbatim>\<open>getBrowserHeaders\<close>, on their own.
\<close>

definition withSecChUa :: "string option \<Rightarrow> Headers \<Rightarrow> Headers" where
  "withSecChUa secChUa h0 =
     (case secChUa of
        Some v \<Rightarrow> if v \<noteq> [] then setKey ''sec-ch-ua'' v h0 else h0
      | None \<Rightarrow> h0)"

definition withReferer :: "Config \<Rightarrow> string \<Rightarrow> Headers \<Rightarrow> Headers" where
  "withReferer cfg refererChatId h1 =
     (if refererChatId \<noteq> [] then
        setKey ''Referer'' (CLIENT_HEADERS_Origin cfg @ ''/c/'' @ refererChatId) h1
      else h1)"

text \<open>A configuration and a family of worlds on which the theorems are exercised.\<close>

definition exampleConfig :: Config where
  "exampleConfig =
     \<lparr>DEBUG_LOGGING = False, ANONYMOUS_MODE = True, BACKUP_TOKEN = ''backup'',
      THINKING_PROCESSING = ''think'', CLIENT_HEADERS_Origin = ''https://chat.z.ai'',
      API_ENDPOINT = ''https://chat.z.ai/api/chat/completions'',
      PRIMARY_MODEL = ''GLM-4.5'', THINKING_MODEL = ''GLM-4.5-Thinking'',
      SEARCH_MODEL = ''GLM-4.5-Search'', AIR_MODEL = ''GLM-4.5-Air'',
      PRIMARY_MODEL_NEW = ''GLM-4.6'', THINKING_MODEL_NEW = ''GLM-4.6-Thinking'',
      SEARCH_MODEL_NEW = ''GLM-4.6-Search''\<rparr>"

definition exampleWorld :: "nat \<Rightarrow> (Request \<Rightarrow> error + Response) \<Rightarrow> World" where
  "exampleWorld r net =
     \<lparr>userAgentInstance = None,
      clock = (\<lambda>k. 1700000000000 + k),
      entropy = (\<lambda>k. r),
      uuids = (\<lambda>k. ''id-'' @ toString k),
      network = (\<lambda>k. net),
      subtleSign = (\<lambda>key message. replicate 32 0),
      parseURL = (\<lambda>s. Some \<lparr>href = s, searchParams = []\<rparr>)\<rparr>"

definition offline :: "Request \<Rightarrow> error + Response" where
  "offline request = Inl (FetchFailed ''offline'')"

text \<open>The number that a decimal string denotes.\<close>

definition fromDecimal :: "string \<Rightarrow> nat" where
  "fromDecimal s = foldl (\<lambda>a c. 10 * a + (of_char c - 48)) 0 s"

text \<open>The characters that \<^verbatim>\<open>toString(16)\<close> writes.\<close>

definition isHexDigit :: "char \<Rightarrow> bool" where
  "isHexDigit c = (c \<in> set ''0123456789abcdef'')"

text \<open>The answer to a token request and to a model-list request, read as the code reads it.\<close>

definition tokenOf :: "error + Response \<Rightarrow> error + string" where
  "tokenOf outcome =
     (case outcome of
        Inl e \<Rightarrow> Inl e
      | Inr response \<Rightarrow>
          if \<not> ok response then Inl (AnonTokenStatus (resp_status response))
          else (case resp_json response of
                  Inl e \<Rightarrow> Inl e
                | Inr body \<Rightarrow>
                    (case json_token body of
                       None \<Rightarrow> Inl AnonTokenEmpty
                     | Some t \<Rightarrow> if t = [] then Inl AnonTokenEmpty else Inr t)))"

definition modelsOf :: "error + Response \<Rightarrow> ZAIModel list" where
  "modelsOf outcome =
     (case outcome of
        Inl e \<Rightarrow> []
      | Inr response \<Rightarrow>
          if \<not> ok response then []
          else (case resp_json response of
                  Inl e \<Rightarrow> []
                | Inr body \<Rightarrow> (case json_data body of Some ms \<Rightarrow> ms | None \<Rightarrow> [])))"

text \<open>An upstream that answers every request with status 500.\<close>

definition serverError :: "Request \<Rightarrow> error + Response" where
  "serverError request = Inr \<lparr>resp_status = 500, resp_json = Inl JsonFailed\<rparr>"

text \<open>
  The keys of a \<^verbatim>\<open>Map\<close> after a sequence of \<^verbatim>\<open>set\<close>: each key at the place of its first
  insertion.
\<close>

definition addKey :: "'k list \<Rightarrow> 'k \<Rightarrow> 'k list" where
  "addKey ks k = (if k \<in> set ks then ks else ks @ [k])"

definition insertionOrder :: "'k list \<Rightarrow> 'k list" where
  "insertionOrder ks = foldl addKey [] ks"

text \<open>
  The overlay in the words of the specification, with "falling back" read as the code's
  \<^verbatim>\<open>||\<close>: the first of the candidates that is a non-empty string (a number other than 0),
  else the default.
\<close>

fun firstNonEmpty :: "string option list \<Rightarrow> string \<Rightarrow> string" where
  "firstNonEmpty [] d = d"
| "firstNonEmpty (None # cs) d = firstNonEmpty cs d"
| "firstNonEmpty (Some s # cs) d = (if s = [] then firstNonEmpty cs d else s)"

fun firstNonZero :: "int option list \<Rightarrow> int \<Rightarrow> int" where
  "firstNonZero [] d = d"
| "firstNonZero (None # cs) d = firstNonZero cs d"
| "firstNonZero (Some n # cs) d = (if n = 0 then firstNonZero cs d else n)"

definition overlaySpec :: "ZAIModel \<Rightarrow> int \<Rightarrow> ZAIModel" where
  "overlaySpec model epochSeconds =
     \<lparr>model_id = model_id model,
      name = Some (firstNonEmpty [name model, Option.bind (info model) info_name] (model_id model)),
      display_name = None,
      created = Some (firstNonZero [created model, Option.bind (info model) created_at] epochSeconds),
      owned_by = Some (firstNonEmpty [owned_by model, Option.bind (info model) user_id] ''z.ai''),
      info = None,
      other_fields = []\<rparr>"

text \<open>
  A network that answers the model-list request with the given models and every other
  request with an anonymous token.
\<close>

definition exampleNet :: "ZAIModel list \<Rightarrow> Request \<Rightarrow> error + Response" where
  "exampleNet models request =
     (if href (req_url request) = ''https://chat.z.ai/api/models'' then
        Inr \<lparr>resp_status = 200, resp_json = Inr \<lparr>json_token = None, json_data = Some models\<rparr>\<rparr>
      else
        Inr \<lparr>resp_status = 200,
             resp_json = Inr \<lparr>json_token = Some ''anonymous-token'', json_data = None\<rparr>\<rparr>)"

text \<open>
  Two fetched models: the one of the specification's test, and one whose own fields are
  present but falsy, with an info object and a display name.
\<close>

definition fetchedNew :: ZAIModel where
  "fetchedNew =
     \<lparr>model_id = ''X'', name = Some ''Foo'', display_name = None, created = None,
      owned_by = None, info = None, other_fields = []\<rparr>"

definition fetchedFalsy :: ZAIModel where
  "fetchedFalsy =
     \<lparr>model_id = ''X'', name = Some [], display_name = Some ''X model'', created = Some 0,
      owned_by = Some [],
      info = Some \<lparr>info_name = Some ''Foo'', created_at = Some 5, user_id = Some ''u-1'',
                   info_more = []\<rparr>,
      other_fields = [(''capabilities'', ''{}'')]\<rparr>"

definition exampleDefaults :: "ZAIModel list" where
  "exampleDefaults =
     map (\<lambda>n. defaultModel n 1700000000)
       [''GLM-4.5'', ''GLM-4.5-Thinking'', ''GLM-4.5-Search'', ''GLM-4.5-Air'',
        ''GLM-4.6'', ''GLM-4.6-Thinking'', ''GLM-4.6-Search'']"

text \<open>
  One pass of a global replacement, as a relation between the text and the result: the
  text is cut into gaps and matches, from left to right; no match starts inside a gap; each
  match is replaced; the scan goes on after the match.
\<close>

inductive singlePass :: "(string \<Rightarrow> nat option) \<Rightarrow> string \<Rightarrow> string \<Rightarrow> string \<Rightarrow> bool"
  for m :: "string \<Rightarrow> nat option" and rep :: string where
  noMatch: "\<forall>i<length s. m (drop i s) = None \<Longrightarrow> singlePass m rep s s"
| match: "\<forall>i<length gap. m (drop i (gap @ x @ rest)) = None \<Longrightarrow> x \<noteq> [] \<Longrightarrow>
          m (x @ rest) = Some (length x) \<Longrightarrow> singlePass m rep rest out \<Longrightarrow>
          singlePass m rep (gap @ x @ rest) (gap @ rep @ out)"

definition wellFormed :: "(string \<Rightarrow> nat option) \<Rightarrow> bool" where
  \<comment> \<open>a match is not empty and lies inside the text\<close>
  "wellFormed m = (\<forall>s n. m s = Some n \<longrightarrow> 0 < n \<and> n \<le> length s)"

definition trimmed :: "string \<Rightarrow> bool" where
  \<comment> \<open>no leading and no trailing white space\<close>
  "trimmed s = (case s of [] \<Rightarrow> True | c # cs \<Rightarrow> \<not> isWhiteSpace c \<and> \<not> isWhiteSpace (last s))"

text \<open>A reasoning block as the upstream sends it.\<close>

definition exampleThinking :: string where
  \<open>exampleThinking =
     ''  <details type="reasoning" done="true"><summary>Thought for 2s</summary>'' @ newline @
     ''> first</thinking>'' @ newline @ ''> <Full>second</Full>'' @ newline @
     ''</details>'' @ newline @ ''answer  ''\<close>

chapter \<open>Verification\<close>

section \<open>Claim C1: the last user message text\<close>

lemma lastUserLoop_find:
  "n \<le> length ms \<Longrightarrow>
   lastUserLoop ms n =
     map_option extractMessageText
       (find (\<lambda>m. role m = ''user'' \<and> extractMessageText m \<noteq> []) (rev (take n ms)))"
proof (induction n)
  case 0
  then show ?case by simp
next
  case (Suc n)
  then have "take (Suc n) ms = take n ms @ [ms ! n]"
    by (simp add: take_Suc_conv_app_nth)
  with Suc show ?case by (simp add: Let_def)
qed

text \<open>
  C1 as stated fails: the scan skips a user message whose text is empty. With two user
  messages, the later one empty, the result is the text of the earlier one; and with an
  empty user message followed by an assistant message the result is the assistant's text,
  although a user-role message exists.
\<close>

theorem C1_most_recent_user_counterexample:
  "getLastUserMessageContent
     [\<lparr>role = ''user'', content = ContentString ''hello'', reasoning_content = None\<rparr>,
      \<lparr>role = ''user'', content = ContentString [], reasoning_content = None\<rparr>] = ''hello''
   \<and> extractMessageText
       \<lparr>role = ''user'', content = ContentString [], reasoning_content = None\<rparr> = []
   \<and> getLastUserMessageContent
     [\<lparr>role = ''user'', content = ContentString [], reasoning_content = None\<rparr>,
      \<lparr>role = ''assistant'', content = ContentString ''bye'', reasoning_content = None\<rparr>] = ''bye''"
  by (simp add: getLastUserMessageContent_def extractMessageText_def)

text \<open>
  C1 (amended): the extracted text is the text of the most recent entry whose role is
  "user" and whose text is not empty (text of a message: string content verbatim; a list
  of parts as the trimmed concatenation of the parts' text fields, a part without one
  giving the empty string; otherwise the reasoning_content string if present; otherwise
  empty). When no user-role message has a non-empty text, it is the text of the very last
  message of the list, and the empty string when the list is empty.
\<close>

theorem C1_last_user_message_text:
  "getLastUserMessageContent ms =
     (case find (\<lambda>m. role m = ''user'' \<and> extractMessageText m \<noteq> []) (rev ms) of
        Some m \<Rightarrow> extractMessageText m
      | None \<Rightarrow> if ms = [] then [] else extractMessageText (last ms))
   \<and> extractMessageText \<lparr>role = r, content = ContentString s, reasoning_content = rc\<rparr> = s
   \<and> extractMessageText \<lparr>role = r, content = ContentParts ps, reasoning_content = rc\<rparr> =
       trim (concat (map (\<lambda>p. case part_text p of Some t \<Rightarrow> t | None \<Rightarrow> []) ps))
   \<and> extractMessageText \<lparr>role = r, content = ContentOther, reasoning_content = Some x\<rparr> = x
   \<and> extractMessageText \<lparr>role = r, content = ContentOther, reasoning_content = None\<rparr> = []"
proof -
  have "lastUserLoop ms (length ms) =
      map_option extractMessageText
        (find (\<lambda>m. role m = ''user'' \<and> extractMessageText m \<noteq> []) (rev ms))"
    using lastUserLoop_find [of "length ms" ms] by simp
  then have "getLastUserMessageContent ms =
     (case find (\<lambda>m. role m = ''user'' \<and> extractMessageText m \<noteq> []) (rev ms) of
        Some m \<Rightarrow> extractMessageText m
      | None \<Rightarrow> if ms = [] then [] else extractMessageText (last ms))"
    by (simp add: getLastUserMessageContent_def split: option.splits list.splits)
  then show ?thesis by (simp add: extractMessageText_def)
qed

section \<open>Claim C8: the browser headers\<close>

lemma secChUaOf_chrome: "secChUaOf (userAgents ! 0) = Some (chromiumBrand ''139'')"
  by code_simp

lemma secChUaOf_edge: "secChUaOf (userAgents ! 1) = Some (edgeBrand ''139'' ''139'')"
  by code_simp

lemma secChUaOf_firefox: "secChUaOf (firefox (newUserAgentInstance 0)) = None"
  by code_simp

lemma secChUaOf_safari: "secChUaOf (safari (newUserAgentInstance 0)) = Some (chromiumBrand ''139'')"
  by code_simp

lemma chromiumBrand_nonempty: "chromiumBrand v \<noteq> []" by (simp add: chromiumBrand_def)

lemma edgeBrand_nonempty: "edgeBrand v v' \<noteq> []" by (simp add: edgeBrand_def)

lemma chooseBrowserType_mem: "fst (chooseBrowserType w) \<in> set browserChoices"
proof -
  have "entropy w 0 mod length browserChoices < length browserChoices"
    by (simp add: browserChoices_def)
  then have "browserChoices ! (entropy w 0 mod length browserChoices) \<in> set browserChoices"
    by (rule nth_mem)
  then show ?thesis
    by (simp add: chooseBrowserType_def randomIndex_def split_def)
qed

lemma getUserAgentInstance_cache:
  "cacheReachable w \<Longrightarrow> userAgentInstance (snd (getUserAgentInstance w)) = userAgentInstance w \<or> userAgentInstance w = None"
  by (simp add: getUserAgentInstance_def split: option.splits)

lemma getUserAgentInstance_reachable:
  assumes "cacheReachable w"
  shows "\<exists>i. fst (getUserAgentInstance w) = newUserAgentInstance i"
proof (cases "userAgentInstance w")
  case None
  then show ?thesis
    by (auto simp: getUserAgentInstance_def split_def Let_def)
next
  case (Some inst)
  with assms show ?thesis
    by (auto simp: getUserAgentInstance_def cacheReachable_def)
qed

lemma secChUaOf_selected:
  assumes "bt \<in> set browserChoices"
  shows "secChUaOf (selectUserAgent (newUserAgentInstance i) bt) =
     (if bt = ''firefox'' then None
      else if bt = ''edge'' then Some (edgeBrand ''139'' ''139'')
      else Some (chromiumBrand ''139''))"
proof -
  have ff: "secChUaOf (firefox (newUserAgentInstance i)) = None"
    using secChUaOf_firefox by (simp add: newUserAgentInstance_def)
  have sf: "secChUaOf (safari (newUserAgentInstance i)) = Some (chromiumBrand ''139'')"
    using secChUaOf_safari by (simp add: newUserAgentInstance_def)
  have ch: "secChUaOf (chrome (newUserAgentInstance i)) = Some (chromiumBrand ''139'')"
    using secChUaOf_chrome by (simp add: newUserAgentInstance_def)
  have ed: "secChUaOf (edge (newUserAgentInstance i)) = Some (edgeBrand ''139'' ''139'')"
    using secChUaOf_edge by (simp add: newUserAgentInstance_def)
  from assms consider "bt = ''chrome''" | "bt = ''edge''" | "bt = ''firefox''" | "bt = ''safari''"
    by (auto simp: browserChoices_def)
  then show ?thesis
    by cases (simp_all add: selectUserAgent_def ff sf ch ed)
qed

lemma map_of_setKey: "map_of (setKey k v ps) = (map_of ps)(k \<mapsto> v)"
  by (induction ps) auto

lemma baseHeaders_lookup:
  "map_of (baseHeaders cfg u) ''Content-Type'' = Some ''application/json''"
  "map_of (baseHeaders cfg u) ''Accept'' = Some ''application/json, text/event-stream''"
  "map_of (baseHeaders cfg u) ''User-Agent'' = Some u"
  "map_of (baseHeaders cfg u) ''Origin'' = Some (CLIENT_HEADERS_Origin cfg)"
  "map_of (baseHeaders cfg u) ''sec-ch-ua'' = None"
  "map_of (baseHeaders cfg u) ''Referer'' = None"
  by (simp_all add: baseHeaders_def)

lemma map_of_withSecChUa:
  "k \<noteq> ''sec-ch-ua'' \<Longrightarrow> map_of (withSecChUa s h) k = map_of h k"
  by (simp add: withSecChUa_def map_of_setKey split: option.splits)

lemma map_of_withReferer:
  "k \<noteq> ''Referer'' \<Longrightarrow> map_of (withReferer cfg r h) k = map_of h k"
  by (simp add: withReferer_def map_of_setKey)

lemma getBrowserHeaders_fst:
  "fst (getBrowserHeaders cfg refererId w) =
     withReferer cfg refererId
       (withSecChUa
          (secChUaOf (selectUserAgent (fst (getUserAgentInstance w))
             (fst (chooseBrowserType (snd (getUserAgentInstance w))))))
          (baseHeaders cfg (selectUserAgent (fst (getUserAgentInstance w))
             (fst (chooseBrowserType (snd (getUserAgentInstance w)))))))"
  by (simp add: getBrowserHeaders_def withReferer_def withSecChUa_def split_def Let_def)

text \<open>
  C8: for every refererId (and every configuration and world whose user-agent cache was
  built by the module), getBrowserHeaders returns a header set, with no error outcome,
  that contains Content-Type, Accept, User-Agent and Origin; sec-ch-ua is present exactly
  when the chosen browser type is not Firefox, with the Edge-branded value for Edge and
  the generic Chromium-branded value for Chrome and Safari; and Referer is present exactly
  when refererId is non-empty, and then equals <configured origin>/c/<refererId>.
\<close>

theorem C8_browser_headers:
  assumes "cacheReachable w"
  shows "let browserType = fst (chooseBrowserType (snd (getUserAgentInstance w)));
             headers = fst (getBrowserHeaders cfg refererId w)
         in map_of headers ''Content-Type'' = Some ''application/json''
          \<and> map_of headers ''Accept'' = Some ''application/json, text/event-stream''
          \<and> map_of headers ''User-Agent'' =
               Some (selectUserAgent (fst (getUserAgentInstance w)) browserType)
          \<and> map_of headers ''Origin'' = Some (CLIENT_HEADERS_Origin cfg)
          \<and> map_of headers ''sec-ch-ua'' =
               (if browserType = ''firefox'' then None
                else if browserType = ''edge'' then Some (edgeBrand ''139'' ''139'')
                else Some (chromiumBrand ''139''))
          \<and> map_of headers ''Referer'' =
               (if refererId = [] then None
                else Some (CLIENT_HEADERS_Origin cfg @ ''/c/'' @ refererId))"
proof -
  define ua where "ua = fst (getUserAgentInstance w)"
  define bt where "bt = fst (chooseBrowserType (snd (getUserAgentInstance w)))"
  define h where "h = fst (getBrowserHeaders cfg refererId w)"
  obtain i where i: "ua = newUserAgentInstance i"
    using getUserAgentInstance_reachable [OF assms] ua_def by auto
  have bt: "bt \<in> set browserChoices"
    unfolding bt_def by (rule chooseBrowserType_mem)
  have sec: "secChUaOf (selectUserAgent ua bt) =
     (if bt = ''firefox'' then None
      else if bt = ''edge'' then Some (edgeBrand ''139'' ''139'')
      else Some (chromiumBrand ''139''))"
    unfolding i by (rule secChUaOf_selected [OF bt])
  have h: "h = withReferer cfg refererId
      (withSecChUa (secChUaOf (selectUserAgent ua bt)) (baseHeaders cfg (selectUserAgent ua bt)))"
    unfolding h_def ua_def bt_def by (rule getBrowserHeaders_fst)
  have c1: "map_of h ''Content-Type'' = Some ''application/json''"
    unfolding h by (simp add: map_of_withReferer map_of_withSecChUa baseHeaders_lookup)
  have c2: "map_of h ''Accept'' = Some ''application/json, text/event-stream''"
    unfolding h by (simp add: map_of_withReferer map_of_withSecChUa baseHeaders_lookup)
  have c3: "map_of h ''User-Agent'' = Some (selectUserAgent ua bt)"
    unfolding h by (simp add: map_of_withReferer map_of_withSecChUa baseHeaders_lookup)
  have c4: "map_of h ''Origin'' = Some (CLIENT_HEADERS_Origin cfg)"
    unfolding h by (simp add: map_of_withReferer map_of_withSecChUa baseHeaders_lookup)
  have c5: "map_of h ''sec-ch-ua'' =
     (if bt = ''firefox'' then None
      else if bt = ''edge'' then Some (edgeBrand ''139'' ''139'')
      else Some (chromiumBrand ''139''))"
    unfolding h sec
    by (simp add: map_of_withReferer withSecChUa_def map_of_setKey baseHeaders_lookup
        chromiumBrand_nonempty edgeBrand_nonempty)
  have c6: "map_of h ''Referer'' =
     (if refererId = [] then None else Some (CLIENT_HEADERS_Origin cfg @ ''/c/'' @ refererId))"
    unfolding h
    by (simp add: withReferer_def map_of_setKey map_of_withSecChUa baseHeaders_lookup)
  show ?thesis
    unfolding Let_def ua_def [symmetric] bt_def [symmetric] h_def [symmetric]
    using c1 c2 c3 c4 c5 c6 by blast
qed

text \<open>The theorem at two worlds: one draws Firefox, the other Edge.\<close>

theorem C8_browser_headers_witness:
  "cacheReachable (exampleWorld 5 offline)
   \<and> map_of (fst (getBrowserHeaders exampleConfig ''abc'' (exampleWorld 5 offline))) ''sec-ch-ua'' = None
   \<and> map_of (fst (getBrowserHeaders exampleConfig ''abc'' (exampleWorld 5 offline))) ''Referer'' =
       Some ''https://chat.z.ai/c/abc''
   \<and> map_of (fst (getBrowserHeaders exampleConfig [] (exampleWorld 3 offline))) ''Referer'' = None
   \<and> map_of (fst (getBrowserHeaders exampleConfig [] (exampleWorld 3 offline))) ''sec-ch-ua'' =
       Some (edgeBrand ''139'' ''139'')"
proof -
  have r5: "cacheReachable (exampleWorld 5 offline)"
    by (simp add: cacheReachable_def exampleWorld_def)
  have r3: "cacheReachable (exampleWorld 3 offline)"
    by (simp add: cacheReachable_def exampleWorld_def)
  have b5: "fst (chooseBrowserType (snd (getUserAgentInstance (exampleWorld 5 offline)))) = ''firefox''"
    by (simp add: chooseBrowserType_def getUserAgentInstance_def randomIndex_def exampleWorld_def
        browserChoices_def userAgents_def split_def Let_def)
  have b3: "fst (chooseBrowserType (snd (getUserAgentInstance (exampleWorld 3 offline)))) = ''edge''"
    by (simp add: chooseBrowserType_def getUserAgentInstance_def randomIndex_def exampleWorld_def
        browserChoices_def userAgents_def split_def Let_def)
  show ?thesis
    using C8_browser_headers [OF r5, of exampleConfig "''abc''"]
      C8_browser_headers [OF r3, of exampleConfig "[]"] r5
    by (simp add: Let_def b5 b3 exampleConfig_def)
qed

section \<open>Claims C5 and C3: the two signature schemes\<close>

lemma hexDigit_nth: "k < 16 \<Longrightarrow> isHexDigit (''0123456789abcdef'' ! k)"
  unfolding isHexDigit_def by (rule nth_mem) simp

lemma toString16_small: "n < 16 \<Longrightarrow> toString16 n = [''0123456789abcdef'' ! n]"
  by (simp add: toString16.simps)

lemma toString16_two:
  assumes "16 \<le> n" "n < 256"
  shows "toString16 n = [''0123456789abcdef'' ! (n div 16), ''0123456789abcdef'' ! (n mod 16)]"
proof -
  from assms have "n div 16 < 16" by simp
  then have "toString16 (n div 16) = [''0123456789abcdef'' ! (n div 16)]"
    by (rule toString16_small)
  with assms show ?thesis
    by (subst toString16.simps) simp
qed

lemma byteHex_cases:
  "byteHex b = [''0123456789abcdef'' ! (unat b div 16), ''0123456789abcdef'' ! (unat b mod 16)]"
proof -
  have lt: "unat b < 256"
    using unsigned_less [of b, where ?'a = nat] by simp
  show ?thesis
  proof (cases "unat b < 16")
    case True
    then show ?thesis
      by (simp add: byteHex_def padStart_def toString16_small)
  next
    case False
    with lt show ?thesis
      by (simp add: byteHex_def padStart_def toString16_two)
  qed
qed

lemma length_byteHex: "length (byteHex b) = 2"
  by (simp add: byteHex_cases)

lemma hex_byteHex: "list_all isHexDigit (byteHex b)"
proof -
  have "unat b < 256" using unsigned_less [of b, where ?'a = nat] by simp
  then have "unat b div 16 < 16" by simp
  moreover have "unat b mod 16 < 16" by simp
  ultimately show ?thesis
    by (simp add: byteHex_cases hexDigit_nth)
qed

lemma length_hexEncode: "length (hexEncode bs) = 2 * length bs"
  by (induction bs) (simp_all add: hexEncode_def length_byteHex)

lemma hex_hexEncode: "list_all isHexDigit (hexEncode bs)"
  by (induction bs) (simp_all add: hexEncode_def hex_byteHex)

lemma substring_all: "length s \<le> n \<Longrightarrow> substring 0 n s = s"
  by (simp add: substring_def)

text \<open>\<^verbatim>\<open>toString\<close> writes the decimal representation.\<close>

lemma digit_value: "n < 10 \<Longrightarrow> of_char (''0123456789'' ! n) - 48 = n"
proof -
  assume "n < 10"
  then consider "n = 0" | "n = 1" | "n = 2" | "n = 3" | "n = 4" | "n = 5" | "n = 6" | "n = 7"
    | "n = 8" | "n = 9"
    by atomize_elim presburger
  then show ?thesis by cases simp_all
qed

lemma fromDecimal_toString: "fromDecimal (toString n) = n"
proof (induction n rule: toString.induct)
  case (1 n)
  show ?case
  proof (cases "n < 10")
    case True
    then show ?thesis
      by (subst toString.simps) (simp add: fromDecimal_def digit_value)
  next
    case False
    have "n mod 10 < 10" by simp
    with False "1.IH" show ?thesis
      by (subst toString.simps) (simp add: fromDecimal_def digit_value)
  qed
qed

lemma utf8_Nil: "utf8 token = [] \<longleftrightarrow> token = []"
  by (cases token) (simp_all add: utf8_def Let_def)

lemma generateLegacySignatureHeaders_empty:
  "fst (generateLegacySignatureHeaders [] body method w) = Inl DataError"
  by (simp add: generateLegacySignatureHeaders_def importKey_def utf8_def split_def Let_def)

lemma generateLegacySignatureHeaders_nonempty:
  assumes "token \<noteq> []"
  shows "fst (generateLegacySignatureHeaders token body method w) =
      Inr [(''X-Timestamp'', toString (clock w 0)),
           (''X-Nonce'',
              substring 0 16 (hexEncode (map (\<lambda>k. of_nat (entropy w k)) [0..<8]))),
           (''X-Signature'', hexEncode (subtleSign w (utf8 token)
              (utf8 (method @ newline @ toString (clock w 0) @ newline @
                 substring 0 16 (hexEncode (map (\<lambda>k. of_nat (entropy w k)) [0..<8])) @
                 newline @ body))))]"
  using assms
  by (simp add: generateLegacySignatureHeaders_def importKey_def utf8_Nil Date_now_def
      getRandomValues_def split_def Let_def hexEncode_def)

text \<open>
  C5 as stated fails at the empty token: \<^verbatim>\<open>crypto.subtle.importKey\<close> refuses an HMAC key of
  length zero, the function has no \<^verbatim>\<open>try\<close>, and the call throws instead of returning
  headers.
\<close>

theorem C5_empty_token_counterexample:
  "fst (generateLegacySignatureHeaders [] [] ''GET'' (exampleWorld 5 offline)) = Inl DataError"
  by (rule generateLegacySignatureHeaders_empty)

text \<open>
  C5 (amended): for every non-empty token and every body and method,
  generateLegacySignatureHeaders returns X-Timestamp equal to the reading of the clock in
  milliseconds as a decimal string, X-Nonce equal to the hex encoding of 8 random bytes,
  which is exactly 16 hex characters (so that the truncation to 16 characters does not
  shorten it), and X-Signature equal to the hex encoding, 64 hex characters, of the
  HMAC-SHA-256, keyed by the token, of method, timestamp, nonce and body joined by newline
  characters; with the empty token it throws the error of importKey. The first hypothesis
  is the output size of HMAC-SHA-256, 32 bytes.
\<close>

theorem C5_legacy_signature_headers:
  assumes "\<forall>key message. length (subtleSign w key message) = 32"
    and "token \<noteq> []"
  shows "let timestampStr = toString (clock w 0);
             randomBytes = map (\<lambda>k. of_nat (entropy w k)) [0..<8];
             nonce = hexEncode randomBytes;
             signString = method @ newline @ timestampStr @ newline @ nonce @ newline @ body;
             signatureHex = hexEncode (subtleSign w (utf8 token) (utf8 signString))
         in fst (generateLegacySignatureHeaders token body method w) =
              Inr [(''X-Timestamp'', timestampStr), (''X-Nonce'', nonce),
                   (''X-Signature'', signatureHex)]
          \<and> length randomBytes = 8
          \<and> length nonce = 16 \<and> list_all isHexDigit nonce
          \<and> substring 0 16 nonce = nonce
          \<and> length signatureHex = 64 \<and> list_all isHexDigit signatureHex
          \<and> fromDecimal timestampStr = clock w 0
          \<and> fst (generateLegacySignatureHeaders [] body method w) = Inl DataError"
proof -
  define nonce where "nonce = hexEncode (map (\<lambda>k. of_nat (entropy w k) :: byte) [0..<8])"
  have len: "length nonce = 16"
    by (simp add: nonce_def length_hexEncode)
  then have sub: "substring 0 16 nonce = nonce"
    by (simp add: substring_all)
  have h: "fst (generateLegacySignatureHeaders token body method w) =
      Inr [(''X-Timestamp'', toString (clock w 0)), (''X-Nonce'', nonce),
       (''X-Signature'', hexEncode (subtleSign w (utf8 token)
          (utf8 (method @ newline @ toString (clock w 0) @ newline @ nonce @ newline @ body))))]"
    using generateLegacySignatureHeaders_nonempty [OF assms(2), of body "method" w] sub
    by (simp add: nonce_def)
  have sig: "length (hexEncode (subtleSign w k m)) = 64" for k m
    using assms(1) by (simp add: length_hexEncode)
  show ?thesis
    unfolding Let_def nonce_def [symmetric] h
    using len sub
    by (simp add: sig hex_hexEncode nonce_def fromDecimal_toString
        generateLegacySignatureHeaders_empty)
qed

text \<open>
  The theorem at the token "secret" and a world whose random bytes are all 5 and whose
  HMAC is 32 zero bytes.
\<close>

theorem C5_legacy_signature_headers_witness:
  "(\<forall>key message. length (subtleSign (exampleWorld 5 offline) key message) = 32)
   \<and> ''secret'' \<noteq> []
   \<and> fst (generateLegacySignatureHeaders ''secret'' [] ''GET'' (exampleWorld 5 offline)) =
       Inr [(''X-Timestamp'', ''1700000000000''), (''X-Nonce'', ''0505050505050505''),
            (''X-Signature'', replicate 64 (CHR ''0''))]"
proof -
  have a: "\<forall>key message. length (subtleSign (exampleWorld 5 offline) key message) = 32"
    by (simp add: exampleWorld_def)
  have b: "''secret'' \<noteq> []" by simp
  have n: "hexEncode (map (\<lambda>k. of_nat (entropy (exampleWorld 5 offline) k) :: byte) [0..<8]) =
      ''0505050505050505''"
    by (simp add: exampleWorld_def hexEncode_def byteHex_cases upt_rec)
  have "hexEncode (replicate 32 (0 :: byte)) = replicate 64 (CHR ''0'')"
    by code_simp
  then have s: "hexEncode (subtleSign (exampleWorld 5 offline) k m) = replicate 64 (CHR ''0'')" for k m
    by (simp add: exampleWorld_def)
  have "toString 1700000000000 = ''1700000000000''"
    by (simp add: toString.simps)
  then have t: "toString (clock (exampleWorld 5 offline) 0) = ''1700000000000''"
    by (simp add: exampleWorld_def)
  show ?thesis
    using C5_legacy_signature_headers [OF a b, of "''GET''" "[]"] a
    by (simp add: Let_def n s t)
qed

text \<open>
  C3: for every pair of strings (e, t) and clock reading timestampMs, generateChatSignature
  returns timestamp = timestampMs and signature = hex(HMAC-SHA256(key = intermediateKey,
  message = "e|t|timestampMs")), where intermediateKey = hex(HMAC-SHA256(key = "junjie",
  message = the decimal string of timestampMs div 300000)); two calls (with the same
  HMAC primitive) whose clock readings fall in the same 5-minute bucket compute the same
  intermediate key.
\<close>

theorem C3_chat_signature:
  "fst (generateChatSignature e t w) =
     \<lparr>signature =
        hexEncode (subtleSign w (utf8 (chatIntermediateKey w (clock w 0)))
          (utf8 (e @ ''|'' @ t @ ''|'' @ toString (clock w 0)))),
      timestamp = clock w 0\<rparr>
   \<and> chatIntermediateKey w timestampMs =
       hexEncode (subtleSign w (utf8 ''junjie'') (utf8 (toString (timestampMs div 300000))))
   \<and> (subtleSign w' = subtleSign w \<and> clock w' 0 div 300000 = clock w 0 div 300000 \<longrightarrow>
        chatIntermediateKey w' (clock w' 0) = chatIntermediateKey w (clock w 0))"
  by (simp add: generateChatSignature_def chatIntermediateKey_def hmacSha256Hex_def Date_now_def
      split_def Let_def)

text \<open>Two different clock readings of the bucket 5666666.\<close>

theorem C3_chat_signature_witness:
  "subtleSign ((exampleWorld 5 offline)\<lparr>clock := \<lambda>k. 1700000000123\<rparr>) = subtleSign (exampleWorld 5 offline)
   \<and> clock ((exampleWorld 5 offline)\<lparr>clock := \<lambda>k. 1700000000123\<rparr>) 0 div 300000 = 5666666
   \<and> clock (exampleWorld 5 offline) 0 div 300000 = 5666666
   \<and> clock ((exampleWorld 5 offline)\<lparr>clock := \<lambda>k. 1700000000123\<rparr>) 0 \<noteq> clock (exampleWorld 5 offline) 0
   \<and> chatIntermediateKey ((exampleWorld 5 offline)\<lparr>clock := \<lambda>k. 1700000000123\<rparr>) 1700000000123 =
       chatIntermediateKey (exampleWorld 5 offline) 1700000000000
   \<and> timestamp (fst (generateChatSignature ''e'' ''t'' (exampleWorld 5 offline))) = 1700000000000"
  using C3_chat_signature [of "''e''" "''t''" "exampleWorld 5 offline" 0
      "(exampleWorld 5 offline)\<lparr>clock := \<lambda>k. 1700000000123\<rparr>"]
  by (simp add: exampleWorld_def)

section \<open>What each effect leaves unchanged\<close>

lemma getBrowserHeaders_frame:
  "network (snd (getBrowserHeaders cfg r w)) = network w"
  "clock (snd (getBrowserHeaders cfg r w)) = clock w"
  "subtleSign (snd (getBrowserHeaders cfg r w)) = subtleSign w"
  by (simp_all add: getBrowserHeaders_def getUserAgentInstance_def chooseBrowserType_def
      randomIndex_def split_def Let_def split: option.splits)

lemma generateLegacySignatureHeaders_frame:
  "network (snd (generateLegacySignatureHeaders t b m w)) = network w"
  "clock (snd (generateLegacySignatureHeaders t b m w)) = (\<lambda>k. clock w (Suc k))"
  by (simp_all add: generateLegacySignatureHeaders_def Date_now_def getRandomValues_def split_def
      Let_def split: sum.splits)

lemma generateLegacySignatureHeaders_anonymous:
  "\<exists>signatureHeaders. fst (generateLegacySignatureHeaders ''anonymous'' b m w) = Inr signatureHeaders"
  using generateLegacySignatureHeaders_nonempty [of "''anonymous''" b m w] by simp

lemma anonymousTokenRequest_frame:
  "network (snd (anonymousTokenRequest cfg w)) = network w"
  "clock (snd (anonymousTokenRequest cfg w)) = (\<lambda>k. clock w (Suc k))"
proof -
  let ?g = "generateLegacySignatureHeaders ''anonymous'' [] ''GET'' (snd (getBrowserHeaders cfg [] w))"
  have s: "snd (anonymousTokenRequest cfg w) = snd ?g"
    by (cases ?g) (simp add: anonymousTokenRequest_def split_def Let_def split: sum.splits)
  show "network (snd (anonymousTokenRequest cfg w)) = network w"
    by (simp add: s generateLegacySignatureHeaders_frame getBrowserHeaders_frame)
  show "clock (snd (anonymousTokenRequest cfg w)) = (\<lambda>k. clock w (Suc k))"
    by (simp add: s generateLegacySignatureHeaders_frame getBrowserHeaders_frame)
qed

text \<open>The token of the anonymous request is "anonymous": the request is always made.\<close>

lemma anonymousTokenRequest_made:
  "\<exists>request. fst (anonymousTokenRequest cfg w) = Inr request
     \<and> req_url request = plainURL (CLIENT_HEADERS_Origin cfg @ ''/api/v1/auths/'')
     \<and> req_timeout request = 10000"
proof -
  let ?g = "generateLegacySignatureHeaders ''anonymous'' [] ''GET'' (snd (getBrowserHeaders cfg [] w))"
  obtain hs where "fst ?g = Inr hs"
    using generateLegacySignatureHeaders_anonymous by blast
  then show ?thesis
    by (cases ?g) (simp add: anonymousTokenRequest_def split_def Let_def)
qed

lemma modelsRequest_frame:
  "network (snd (modelsRequest cfg t w)) = network w"
  by (simp add: modelsRequest_def split_def Let_def getBrowserHeaders_frame)

lemma modelsRequest_url:
  "req_url (fst (modelsRequest cfg t w)) = plainURL ''https://chat.z.ai/api/models''"
  "req_timeout (fst (modelsRequest cfg t w)) = 10000"
  by (simp_all add: modelsRequest_def split_def Let_def)

lemma getDefaultModels_frame:
  "network (snd (getDefaultModels cfg w)) = network w"
  "userAgentInstance (snd (getDefaultModels cfg w)) = userAgentInstance w"
  by (simp_all add: getDefaultModels_def Date_now_def split_def Let_def)

lemma getAnonymousToken_eq:
  "\<exists>request. req_url request = plainURL (CLIENT_HEADERS_Origin cfg @ ''/api/v1/auths/'')
     \<and> fst (getAnonymousToken cfg w) = tokenOf (network w 0 request)"
proof -
  obtain request where r: "fst (anonymousTokenRequest cfg w) = Inr request"
    and u: "req_url request = plainURL (CLIENT_HEADERS_Origin cfg @ ''/api/v1/auths/'')"
    using anonymousTokenRequest_made by blast
  have "fst (getAnonymousToken cfg w) = tokenOf (network w 0 request)"
    using r anonymousTokenRequest_frame(1) [of cfg w]
    by (cases "anonymousTokenRequest cfg w")
       (simp add: getAnonymousToken_def tokenOf_def fetch_def split_def Let_def)
  with u show ?thesis by blast
qed

lemma getAnonymousToken_network:
  "network (snd (getAnonymousToken cfg w)) = (\<lambda>k. network w (Suc k))"
proof -
  obtain request where r: "fst (anonymousTokenRequest cfg w) = Inr request"
    using anonymousTokenRequest_made by blast
  then show ?thesis
    using anonymousTokenRequest_frame(1) [of cfg w]
    by (cases "anonymousTokenRequest cfg w")
       (simp add: getAnonymousToken_def fetch_def split_def Let_def)
qed

lemma getAnonymousToken_clock:
  "clock (snd (getAnonymousToken cfg w)) = (\<lambda>k. clock w (Suc k))"
proof -
  obtain request where r: "fst (anonymousTokenRequest cfg w) = Inr request"
    using anonymousTokenRequest_made by blast
  then show ?thesis
    using anonymousTokenRequest_frame(2) [of cfg w]
    by (cases "anonymousTokenRequest cfg w")
       (simp add: getAnonymousToken_def fetch_def split_def Let_def)
qed

lemma fetchLatestModels_eq:
  "fst (fetchLatestModels cfg w) =
     Inr (case fst (getAnonymousToken cfg w) of
            Inl tokenError \<Rightarrow> []
          | Inr authToken \<Rightarrow>
              modelsOf (network w 1
                (fst (modelsRequest cfg authToken (snd (getAnonymousToken cfg w))))))"
proof (cases "getAnonymousToken cfg w")
  case (Pair r w1)
  then have n: "network w1 = (\<lambda>k. network w (Suc k))"
    using getAnonymousToken_network [of cfg w] by simp
  show ?thesis
  proof (cases r)
    case (Inl e)
    with Pair show ?thesis by (simp add: fetchLatestModels_def)
  next
    case (Inr t)
    with Pair n show ?thesis
      by (simp add: fetchLatestModels_def modelsOf_def fetch_def split_def Let_def
          modelsRequest_frame split: sum.splits option.splits)
  qed
qed

section \<open>Claim C6: token acquisition and model fetching absorb provider failures\<close>

text \<open>
  C6: token acquisition and model fetching never propagate a provider failure. getAuthToken
  always returns a string: the anonymous token when anonymous mode is configured and
  getAnonymousToken succeeds, the configured backup token otherwise. fetchLatestModels
  always returns a list: the empty list when getAnonymousToken fails, when fetch rejects,
  when the status is not a success and when reading the body fails; otherwise the data
  field of the body, or the empty list when that is absent.
\<close>

theorem C6_failures_absorbed:
  "fst (getAuthToken cfg w) =
     Inr (if ANONYMOUS_MODE cfg then
            (case fst (getAnonymousToken cfg w) of Inr t \<Rightarrow> t | Inl e \<Rightarrow> BACKUP_TOKEN cfg)
          else BACKUP_TOKEN cfg)
   \<and> fst (fetchLatestModels cfg w) =
       Inr (case fst (getAnonymousToken cfg w) of
              Inl tokenError \<Rightarrow> []
            | Inr authToken \<Rightarrow>
                (case network w 1
                        (fst (modelsRequest cfg authToken (snd (getAnonymousToken cfg w)))) of
                   Inl e \<Rightarrow> []
                 | Inr response \<Rightarrow>
                     if ok response then
                       (case resp_json response of
                          Inl e \<Rightarrow> []
                        | Inr body \<Rightarrow> (case json_data body of Some ms \<Rightarrow> ms | None \<Rightarrow> []))
                     else []))"
proof -
  have "fst (getAuthToken cfg w) =
     Inr (if ANONYMOUS_MODE cfg then
            (case fst (getAnonymousToken cfg w) of Inr t \<Rightarrow> t | Inl e \<Rightarrow> BACKUP_TOKEN cfg)
          else BACKUP_TOKEN cfg)"
    by (cases "getAnonymousToken cfg w")
       (simp add: getAuthToken_def split: sum.splits)
  moreover have "fst (fetchLatestModels cfg w) =
       Inr (case fst (getAnonymousToken cfg w) of
              Inl tokenError \<Rightarrow> []
            | Inr authToken \<Rightarrow>
                (case network w 1
                        (fst (modelsRequest cfg authToken (snd (getAnonymousToken cfg w)))) of
                   Inl e \<Rightarrow> []
                 | Inr response \<Rightarrow>
                     if ok response then
                       (case resp_json response of
                          Inl e \<Rightarrow> []
                        | Inr body \<Rightarrow> (case json_data body of Some ms \<Rightarrow> ms | None \<Rightarrow> []))
                     else []))"
    unfolding fetchLatestModels_eq
    by (simp add: modelsOf_def split: sum.splits option.splits)
  ultimately show ?thesis by blast
qed

section \<open>Claim C7: the default list when the fetch fails or is empty\<close>

lemma getAvailableModelsFrom_fallback:
  assumes "(\<exists>e. fst (fetcher (snd (getDefaultModels cfg w))) = Inl e)
           \<or> fst (fetcher (snd (getDefaultModels cfg w))) = Inr []"
  shows "fst (getAvailableModelsFrom fetcher cfg w) = Inr (fst (getDefaultModels cfg w))"
  using assms
  by (cases "fetcher (snd (getDefaultModels cfg w))")
     (auto simp: getAvailableModelsFrom_def split_def Let_def split: sum.splits)

lemma getAvailableModelsFrom_returns:
  "\<exists>ms. fst (getAvailableModelsFrom fetcher cfg w) = Inr ms"
  by (cases "fetcher (snd (getDefaultModels cfg w))")
     (auto simp: getAvailableModelsFrom_def split_def Let_def split: sum.splits)

text \<open>
  C7: getAvailableModels never fails, and whenever the fetch of the latest models throws
  or yields an empty list, it returns exactly the list of getDefaultModels. Stated for
  fetchLatestModels (which never throws) and for any function in its place (which may).
\<close>

theorem C7_default_models_on_failure:
  "(\<exists>ms. fst (getAvailableModels cfg w) = Inr ms)
   \<and> (fst (fetchLatestModels cfg (snd (getDefaultModels cfg w))) = Inr [] \<longrightarrow>
        fst (getAvailableModels cfg w) = Inr (fst (getDefaultModels cfg w)))
   \<and> (\<exists>ms. fst (getAvailableModelsFrom fetcher cfg w) = Inr ms)
   \<and> ((\<exists>e. fst (fetcher (snd (getDefaultModels cfg w))) = Inl e)
        \<or> fst (fetcher (snd (getDefaultModels cfg w))) = Inr [] \<longrightarrow>
        fst (getAvailableModelsFrom fetcher cfg w) = Inr (fst (getDefaultModels cfg w)))"
  using getAvailableModelsFrom_returns [of fetcher cfg w]
    getAvailableModelsFrom_returns [of "fetchLatestModels cfg" cfg w]
    getAvailableModelsFrom_fallback [of fetcher cfg w]
    getAvailableModelsFrom_fallback [of "fetchLatestModels cfg" cfg w]
  unfolding getAvailableModels_def by blast

lemma exampleWorld_network: "network (exampleWorld r net) = (\<lambda>k. net)"
  by (simp add: exampleWorld_def)

lemma fetchLatestModels_offline:
  "fst (fetchLatestModels cfg (snd (getDefaultModels cfg (exampleWorld r offline)))) = Inr []"
proof -
  let ?w = "snd (getDefaultModels cfg (exampleWorld r offline))"
  obtain request where "fst (getAnonymousToken cfg ?w) = tokenOf (network ?w 0 request)"
    using getAnonymousToken_eq by blast
  then have "fst (getAnonymousToken cfg ?w) = Inl (FetchFailed ''offline'')"
    by (simp add: getDefaultModels_frame exampleWorld_network offline_def tokenOf_def)
  then show ?thesis
    by (simp add: fetchLatestModels_eq)
qed

lemma getDefaultModels_example:
  "fst (getDefaultModels exampleConfig (exampleWorld r net)) =
     map (\<lambda>n. defaultModel n 1700000000)
       [''GLM-4.5'', ''GLM-4.5-Thinking'', ''GLM-4.5-Search'', ''GLM-4.5-Air'',
        ''GLM-4.6'', ''GLM-4.6-Thinking'', ''GLM-4.6-Search'']"
  by (simp add: getDefaultModels_def Date_now_def exampleWorld_def exampleConfig_def)

text \<open>The theorem when the network is down, and with a fetcher that throws.\<close>

theorem C7_default_models_on_failure_witness:
  "fst (fetchLatestModels exampleConfig (snd (getDefaultModels exampleConfig (exampleWorld 5 offline)))) = Inr []
   \<and> fst (getAvailableModels exampleConfig (exampleWorld 5 offline)) =
       Inr (map (\<lambda>n. defaultModel n 1700000000)
         [''GLM-4.5'', ''GLM-4.5-Thinking'', ''GLM-4.5-Search'', ''GLM-4.5-Air'',
          ''GLM-4.6'', ''GLM-4.6-Thinking'', ''GLM-4.6-Search''])
   \<and> fst (getAvailableModelsFrom (\<lambda>w. (Inl (FetchFailed ''down''), w)) exampleConfig
          (exampleWorld 5 offline)) =
       Inr (map (\<lambda>n. defaultModel n 1700000000)
         [''GLM-4.5'', ''GLM-4.5-Thinking'', ''GLM-4.5-Search'', ''GLM-4.5-Air'',
          ''GLM-4.6'', ''GLM-4.6-Thinking'', ''GLM-4.6-Search''])"
  using C7_default_models_on_failure [of exampleConfig "exampleWorld 5 offline"
      "\<lambda>w. (Inl (FetchFailed ''down''), w)"]
    fetchLatestModels_offline [of exampleConfig 5]
  by (simp add: getDefaultModels_example)

section \<open>Claim C2: what the upstream call raises\<close>

lemma callUpstreamApi_frame:
  "network (snd (generateChatSignature e t w)) = network w"
  "parseURL (snd (generateChatSignature e t w)) = parseURL w"
  "network (snd (randomUUID w)) = network w"
  "parseURL (snd (randomUUID w)) = parseURL w"
  "network (snd (Date_now w)) = network w"
  "parseURL (snd (Date_now w)) = parseURL w"
  "parseURL (snd (getBrowserHeaders cfg r w)) = parseURL w"
  by (simp_all add: generateChatSignature_def randomUUID_def Date_now_def getBrowserHeaders_def
      getUserAgentInstance_def chooseBrowserType_def randomIndex_def split_def Let_def
      split: option.splits)

lemma upstreamCallRequest_frame:
  "network (snd (upstreamCallRequest cfg upstreamReq chatId authToken w)) = network w"
  by (simp add: upstreamCallRequest_def split_def Let_def callUpstreamApi_frame
      getBrowserHeaders_frame split: option.splits)

lemma upstreamCallRequest_result:
  "case fst (upstreamCallRequest cfg upstreamReq chatId authToken w) of
     Inl e \<Rightarrow> e = InvalidURL \<and> parseURL w (API_ENDPOINT cfg) = None
   | Inr request \<Rightarrow>
       parseURL w (API_ENDPOINT cfg) \<noteq> None
       \<and> req_method request = ''POST''
       \<and> req_timeout request = 60000
       \<and> req_body request = JsonBody (upstreamReq\<lparr>params := None\<rparr>)
       \<and> map_of (req_headers request) ''Authorization'' = Some (''Bearer '' @ authToken)"
  by (simp add: upstreamCallRequest_def split_def Let_def callUpstreamApi_frame
      map_of_setKey split: option.splits)

lemma callUpstreamApi_fetch:
  "fst (callUpstreamApi cfg upstreamReq chatId authToken w) =
     (case fst (upstreamCallRequest cfg upstreamReq chatId authToken w) of
        Inl e \<Rightarrow> Inl e
      | Inr request \<Rightarrow> network w 0 request)"
  using upstreamCallRequest_frame [of cfg upstreamReq chatId authToken w]
  by (cases "upstreamCallRequest cfg upstreamReq chatId authToken w")
     (simp add: callUpstreamApi_def fetch_def split: sum.splits)

text \<open>
  C2 as stated fails: when the upstream answers with status 500, callUpstreamApi returns
  that response; it raises nothing.
\<close>

theorem C2_non_success_status_counterexample:
  "fst (callUpstreamApi exampleConfig \<lparr>messages = Some [], params = None, rest_fields = []\<rparr>
          ''chat-1'' ''token'' (exampleWorld 5 serverError)) =
     Inr \<lparr>resp_status = 500, resp_json = Inl JsonFailed\<rparr>
   \<and> \<not> ok \<lparr>resp_status = 500, resp_json = Inl JsonFailed\<rparr>"
proof -
  have p: "parseURL (exampleWorld 5 serverError) (API_ENDPOINT exampleConfig) \<noteq> None"
    by (simp add: exampleWorld_def)
  show ?thesis
    using upstreamCallRequest_result [where cfg = exampleConfig
        and upstreamReq = "\<lparr>messages = Some [], params = None, rest_fields = []\<rparr>"
        and chatId = "''chat-1''" and authToken = "''token''"
        and w = "exampleWorld 5 serverError"] p
    by (auto simp: callUpstreamApi_fetch exampleWorld_network serverError_def ok_def
        split: sum.splits)
qed

text \<open>
  C2 (amended): callUpstreamApi issues one POST with a 60-second timeout and returns what
  fetch gives: it raises the error with which fetch rejects (network failure, timeout),
  neither caught nor classified, and it returns every response as it is, whatever its
  status, leaving the status and the body to its caller. Before the fetch, the only
  error is an endpoint that does not parse as a URL.
\<close>

theorem C2_upstream_call_outcome:
  "fst (callUpstreamApi cfg upstreamReq chatId authToken w) =
     (case fst (upstreamCallRequest cfg upstreamReq chatId authToken w) of
        Inl e \<Rightarrow> Inl e
      | Inr request \<Rightarrow>
          fst (fetch request (snd (upstreamCallRequest cfg upstreamReq chatId authToken w))))
   \<and> (case fst (upstreamCallRequest cfg upstreamReq chatId authToken w) of
        Inl e \<Rightarrow> e = InvalidURL \<and> parseURL w (API_ENDPOINT cfg) = None
      | Inr request \<Rightarrow>
          parseURL w (API_ENDPOINT cfg) \<noteq> None
          \<and> req_method request = ''POST''
          \<and> req_timeout request = 60000
          \<and> req_body request = JsonBody (upstreamReq\<lparr>params := None\<rparr>)
          \<and> map_of (req_headers request) ''Authorization'' = Some (''Bearer '' @ authToken))"
proof -
  have "fst (callUpstreamApi cfg upstreamReq chatId authToken w) =
     (case fst (upstreamCallRequest cfg upstreamReq chatId authToken w) of
        Inl e \<Rightarrow> Inl e
      | Inr request \<Rightarrow>
          fst (fetch request (snd (upstreamCallRequest cfg upstreamReq chatId authToken w))))"
    by (cases "upstreamCallRequest cfg upstreamReq chatId authToken w")
       (simp add: callUpstreamApi_def split: sum.splits)
  then show ?thesis
    using upstreamCallRequest_result [where cfg = cfg and upstreamReq = upstreamReq
        and chatId = chatId and authToken = authToken and w = w] by blast
qed

section \<open>Claims C4 and C9: the merged model list\<close>

lemma map_fst_setKey: "map fst (setKey k v ps) = addKey (map fst ps) k"
  by (induction ps) (auto simp: addKey_def)

lemma distinct_addKey: "distinct ks \<Longrightarrow> distinct (addKey ks k)"
  by (simp add: addKey_def)

lemma distinct_foldl_addKey: "distinct ks \<Longrightarrow> distinct (foldl addKey ks xs)"
  by (induction xs arbitrary: ks) (simp_all add: distinct_addKey)

lemma set_foldl_addKey: "set (foldl addKey ks xs) = set ks \<union> set xs"
  by (induction xs arbitrary: ks) (auto simp: addKey_def)

lemma foldl_addKey_fresh: "distinct (ks @ xs) \<Longrightarrow> foldl addKey ks xs = ks @ xs"
proof (induction xs arbitrary: ks)
  case Nil
  then show ?case by simp
next
  case (Cons x xs)
  then have "addKey ks x = ks @ [x]" by (simp add: addKey_def)
  moreover from Cons.prems have "distinct ((ks @ [x]) @ xs)" by simp
  ultimately show ?case using Cons.IH [of "ks @ [x]"] by simp
qed

lemma foldl_addKey_append:
  "foldl addKey ks (xs @ ys) = foldl addKey (foldl addKey ks xs) ys"
  by simp

lemma set_setKey:
  "distinct (map fst ps) \<Longrightarrow> set (setKey k v ps) = insert (k, v) {p \<in> set ps. fst p \<noteq> k}"
  by (induction ps) (auto simp: rev_image_eqI)

lemma distinct_setKey: "distinct (map fst ps) \<Longrightarrow> distinct (map fst (setKey k v ps))"
  by (simp add: map_fst_setKey distinct_addKey)

text \<open>The default models in the map.\<close>

lemma addDefaults_general:
  "distinct (map fst mp) \<Longrightarrow>
   map fst (foldl (\<lambda>modelMap model. setKey (model_id model) model modelMap) mp ds) =
     foldl addKey (map fst mp) (map model_id ds)
   \<and> set (foldl (\<lambda>modelMap model. setKey (model_id model) model modelMap) mp ds)
       \<subseteq> set mp \<union> (\<lambda>d. (model_id d, d)) ` set ds"
proof (induction ds arbitrary: mp)
  case Nil
  then show ?case by simp
next
  case (Cons d ds)
  have d: "distinct (map fst (setKey (model_id d) d mp))"
    using Cons.prems by (rule distinct_setKey)
  have s: "set (setKey (model_id d) d mp) \<subseteq> insert (model_id d, d) (set mp)"
    using Cons.prems by (auto simp: set_setKey)
  from Cons.IH [OF d] s show ?case
    by (auto simp: map_fst_setKey)
qed

lemma addDefaults_keys: "map fst (addDefaults ds) = insertionOrder (map model_id ds)"
  using addDefaults_general [of "[]" ds] by (simp add: addDefaults_def insertionOrder_def)

lemma addDefaults_entries: "(k, v) \<in> set (addDefaults ds) \<Longrightarrow> v \<in> set ds \<and> model_id v = k"
  using addDefaults_general [of "[]" ds] by (auto simp: addDefaults_def)

lemma addDefaults_distinct: "distinct (map fst (addDefaults ds))"
  by (simp add: addDefaults_keys insertionOrder_def distinct_foldl_addKey)

text \<open>The merged entry is the overlay of the specification, at the clock of its world.\<close>

lemma mergedEntry_overlaySpec:
  "fst (mergedEntry model w) = overlaySpec model (int (clock w 0 div 1000))"
  by (simp add: mergedEntry_def overlaySpec_def truthyString_def truthyNumber_def Date_now_def
      split_def Let_def split: option.splits)

text \<open>Merging an entry reads the clock at most once.\<close>

lemma mergedEntry_clock:
  "\<exists>d. clock (snd (mergedEntry model w)) = (\<lambda>i. clock w (i + d))"
proof (cases "clock (snd (mergedEntry model w)) = clock w")
  case True
  then have "clock (snd (mergedEntry model w)) = (\<lambda>i. clock w (i + 0))" by simp
  then show ?thesis by blast
next
  case False
  then have "clock (snd (mergedEntry model w)) = (\<lambda>i. clock w (i + 1))"
    by (simp add: mergedEntry_def Date_now_def split_def Let_def split: option.splits)
  then show ?thesis by blast
qed

lemma overlayModels_general:
  "distinct (map fst mp) \<Longrightarrow>
   map fst (fst (overlayModels ms mp w)) = foldl addKey (map fst mp) (map model_id ms)
   \<and> (\<forall>(k, e) \<in> set (fst (overlayModels ms mp w)).
        ((k, e) \<in> set mp \<and> k \<notin> model_id ` set ms)
        \<or> (\<exists>m \<in> set ms. \<exists>v j. clock v = (\<lambda>i. clock w (i + j))
               \<and> k = model_id m \<and> e = fst (mergedEntry m v)))"
proof (induction ms arbitrary: mp w)
  case Nil
  then show ?case by auto
next
  case (Cons m ms)
  define mp' where "mp' = setKey (model_id m) (fst (mergedEntry m w)) mp"
  define w' where "w' = snd (mergedEntry m w)"
  have step: "overlayModels (m # ms) mp w = overlayModels ms mp' w'"
    by (simp add: mp'_def w'_def split_def Let_def)
  have d: "distinct (map fst mp')"
    unfolding mp'_def using Cons.prems by (rule distinct_setKey)
  have s: "set mp' = insert (model_id m, fst (mergedEntry m w)) {p \<in> set mp. fst p \<noteq> model_id m}"
    unfolding mp'_def using Cons.prems by (rule set_setKey)
  have k: "map fst mp' = addKey (map fst mp) (model_id m)"
    unfolding mp'_def by (rule map_fst_setKey)
  obtain d' where cw': "clock w' = (\<lambda>i. clock w (i + d'))"
    unfolding w'_def using mergedEntry_clock by blast
  have later: "\<exists>j. clock v = (\<lambda>i. clock w (i + j))"
    if "clock v = (\<lambda>i. clock w' (i + j'))" for v j'
  proof -
    from that cw' have "clock v = (\<lambda>i. clock w (i + (j' + d')))"
      by (simp add: add.assoc)
    then show ?thesis by blast
  qed
  from Cons.IH [OF d, of w'] have
    keys: "map fst (fst (overlayModels ms mp' w')) = foldl addKey (map fst mp') (map model_id ms)"
    and ents: "\<forall>(k, e) \<in> set (fst (overlayModels ms mp' w')).
        ((k, e) \<in> set mp' \<and> k \<notin> model_id ` set ms)
        \<or> (\<exists>m \<in> set ms. \<exists>v j. clock v = (\<lambda>i. clock w' (i + j))
               \<and> k = model_id m \<and> e = fst (mergedEntry m v))"
    by blast+
  have here: "clock w = (\<lambda>i. clock w (i + 0))" by simp
  have "\<forall>(k, e) \<in> set (fst (overlayModels ms mp' w')).
        ((k, e) \<in> set mp \<and> k \<notin> model_id ` set (m # ms))
        \<or> (\<exists>m' \<in> set (m # ms). \<exists>v j. clock v = (\<lambda>i. clock w (i + j))
               \<and> k = model_id m' \<and> e = fst (mergedEntry m' v))"
  proof (clarify)
    fix k e
    assume ke: "(k, e) \<in> set (fst (overlayModels ms mp' w'))"
      and no: "\<not> (\<exists>m' \<in> set (m # ms). \<exists>v j. clock v = (\<lambda>i. clock w (i + j))
               \<and> k = model_id m' \<and> e = fst (mergedEntry m' v))"
    from ents ke have c: "((k, e) \<in> set mp' \<and> k \<notin> model_id ` set ms)
        \<or> (\<exists>m \<in> set ms. \<exists>v j. clock v = (\<lambda>i. clock w' (i + j))
               \<and> k = model_id m \<and> e = fst (mergedEntry m v))"
      by blast
    have n1: "\<not> (\<exists>m \<in> set ms. \<exists>v j. clock v = (\<lambda>i. clock w' (i + j))
               \<and> k = model_id m \<and> e = fst (mergedEntry m v))"
    proof
      assume "\<exists>m \<in> set ms. \<exists>v j. clock v = (\<lambda>i. clock w' (i + j))
               \<and> k = model_id m \<and> e = fst (mergedEntry m v)"
      then obtain m0 v j' where m0: "m0 \<in> set ms" and cv: "clock v = (\<lambda>i. clock w' (i + j'))"
        and ke0: "k = model_id m0" "e = fst (mergedEntry m0 v)"
        by blast
      from later [OF cv] obtain j where "clock v = (\<lambda>i. clock w (i + j))" by blast
      with m0 ke0 have "\<exists>m' \<in> set (m # ms). \<exists>v j. clock v = (\<lambda>i. clock w (i + j))
               \<and> k = model_id m' \<and> e = fst (mergedEntry m' v)"
        by auto
      with no show False by blast
    qed
    have n2: "\<not> (k = model_id m \<and> e = fst (mergedEntry m w))"
    proof
      assume "k = model_id m \<and> e = fst (mergedEntry m w)"
      with here have "clock w = (\<lambda>i. clock w (i + 0)) \<and> k = model_id m
          \<and> e = fst (mergedEntry m w)"
        by blast
      then have "\<exists>v j. clock v = (\<lambda>i. clock w (i + j)) \<and> k = model_id m
          \<and> e = fst (mergedEntry m v)"
        by (intro exI [of _ w] exI [of _ 0])
      moreover have "m \<in> set (m # ms)" by simp
      ultimately have "\<exists>m' \<in> set (m # ms). \<exists>v j. clock v = (\<lambda>i. clock w (i + j))
               \<and> k = model_id m' \<and> e = fst (mergedEntry m' v)"
        by (rule bexI)
      with no show False by blast
    qed
    from c n1 have in': "(k, e) \<in> set mp'" and notin: "k \<notin> model_id ` set ms"
      by blast+
    from in' s n2 have "(k, e) \<in> set mp \<and> k \<noteq> model_id m"
      by auto
    with notin show "(k, e) \<in> set mp \<and> k \<notin> model_id ` set (m # ms)"
      by auto
  qed
  with keys k step show ?case by simp
qed

lemma overlay_result:
  assumes "(modelMap, w') = overlayModels latest (addDefaults defaults) w"
  shows "map model_id (map snd modelMap) =
           insertionOrder (map model_id defaults @ map model_id latest)"
    and "\<forall>e \<in> set (map snd modelMap).
           (e \<in> set defaults \<and> model_id e \<notin> model_id ` set latest)
           \<or> (\<exists>m \<in> set latest. \<exists>v j. clock v = (\<lambda>i. clock w (i + j))
                  \<and> e = fst (mergedEntry m v))"
proof -
  have mm: "modelMap = fst (overlayModels latest (addDefaults defaults) w)"
    using assms by (metis fst_conv)
  note g = overlayModels_general [OF addDefaults_distinct, of latest defaults w]
  from g have keys: "map fst modelMap = insertionOrder (map model_id defaults @ map model_id latest)"
    by (simp add: mm addDefaults_keys insertionOrder_def)
  from g have ents: "\<forall>(k, e) \<in> set modelMap.
      ((k, e) \<in> set (addDefaults defaults) \<and> k \<notin> model_id ` set latest)
      \<or> (\<exists>m \<in> set latest. \<exists>v j. clock v = (\<lambda>i. clock w (i + j))
             \<and> k = model_id m \<and> e = fst (mergedEntry m v))"
    by (simp add: mm)
  have ids: "\<forall>(k, e) \<in> set modelMap. model_id e = k"
  proof (clarify)
    fix k e assume "(k, e) \<in> set modelMap"
    with ents have "((k, e) \<in> set (addDefaults defaults) \<and> k \<notin> model_id ` set latest)
      \<or> (\<exists>m \<in> set latest. \<exists>v j. clock v = (\<lambda>i. clock w (i + j))
             \<and> k = model_id m \<and> e = fst (mergedEntry m v))"
      by blast
    then show "model_id e = k"
    proof
      assume "(k, e) \<in> set (addDefaults defaults) \<and> k \<notin> model_id ` set latest"
      then show ?thesis using addDefaults_entries by blast
    next
      assume "\<exists>m \<in> set latest. \<exists>v j. clock v = (\<lambda>i. clock w (i + j))
             \<and> k = model_id m \<and> e = fst (mergedEntry m v)"
      then obtain m v where "k = model_id m" "e = fst (mergedEntry m v)" by blast
      then show ?thesis by (simp add: mergedEntry_overlaySpec overlaySpec_def)
    qed
  qed
  then have "map model_id (map snd modelMap) = map fst modelMap"
    by (induction modelMap) auto
  with keys show "map model_id (map snd modelMap) =
           insertionOrder (map model_id defaults @ map model_id latest)"
    by simp
  show "\<forall>e \<in> set (map snd modelMap).
           (e \<in> set defaults \<and> model_id e \<notin> model_id ` set latest)
           \<or> (\<exists>m \<in> set latest. \<exists>v j. clock v = (\<lambda>i. clock w (i + j))
                  \<and> e = fst (mergedEntry m v))"
  proof
    fix e assume "e \<in> set (map snd modelMap)"
    then obtain k where ke: "(k, e) \<in> set modelMap" by auto
    with ids have k: "k = model_id e" by auto
    from ents ke have "((k, e) \<in> set (addDefaults defaults) \<and> k \<notin> model_id ` set latest)
      \<or> (\<exists>m \<in> set latest. \<exists>v j. clock v = (\<lambda>i. clock w (i + j))
             \<and> k = model_id m \<and> e = fst (mergedEntry m v))"
      by blast
    then show "(e \<in> set defaults \<and> model_id e \<notin> model_id ` set latest)
           \<or> (\<exists>m \<in> set latest. \<exists>v j. clock v = (\<lambda>i. clock w (i + j))
                  \<and> e = fst (mergedEntry m v))"
      using addDefaults_entries [of k e defaults] k by blast
  qed
qed

lemma setKey_fresh: "k \<notin> fst ` set ps \<Longrightarrow> setKey k v ps = ps @ [(k, v)]"
  by (induction ps) auto

lemma addDefaults_fresh:
  "distinct (map fst mp @ map model_id ds) \<Longrightarrow>
   foldl (\<lambda>modelMap model. setKey (model_id model) model modelMap) mp ds =
     mp @ map (\<lambda>d. (model_id d, d)) ds"
proof (induction ds arbitrary: mp)
  case Nil
  then show ?case by simp
next
  case (Cons d ds)
  from Cons.prems have f: "setKey (model_id d) d mp = mp @ [(model_id d, d)]"
    by (intro setKey_fresh) auto
  from Cons.prems have "distinct (map fst (mp @ [(model_id d, d)]) @ map model_id ds)"
    by auto
  from Cons.IH [OF this] f show ?case by simp
qed

lemma overlay_single:
  assumes "distinct (map model_id defaults)" "model_id m \<notin> model_id ` set defaults"
  shows "map snd (fst (overlayModels [m] (addDefaults defaults) w)) =
           defaults @ [overlaySpec m (int (clock w 0 div 1000))]"
proof -
  have a: "addDefaults defaults = map (\<lambda>d. (model_id d, d)) defaults"
    using assms(1) addDefaults_fresh [of "[]" defaults] by (simp add: addDefaults_def)
  have "model_id m \<notin> fst ` set (addDefaults defaults)"
    using assms(2) by (auto simp: a)
  then have "setKey (model_id m) (fst (mergedEntry m w)) (addDefaults defaults) =
      addDefaults defaults @ [(model_id m, fst (mergedEntry m w))]"
    by (rule setKey_fresh)
  then show ?thesis
    by (simp add: split_def Let_def a mergedEntry_overlaySpec comp_def)
qed

lemma insertionOrder_distinct: "distinct (insertionOrder ks)"
  by (simp add: insertionOrder_def distinct_foldl_addKey)

lemma clock_fetchLatestModels:
  "clock (snd (fetchLatestModels cfg w)) = (\<lambda>k. clock w (Suc k))"
  using getAnonymousToken_clock [of cfg w]
  by (cases "getAnonymousToken cfg w")
     (simp add: fetchLatestModels_def modelsRequest_def fetch_def getBrowserHeaders_frame
        split_def Let_def split: sum.splits)

lemma clock_getDefaultModels:
  "clock (snd (getDefaultModels cfg w)) = (\<lambda>k. clock w (Suc k))"
  by (simp add: getDefaultModels_def Date_now_def split_def Let_def)

lemma getAvailableModels_nonempty:
  assumes "fst (fetchLatestModels cfg (snd (getDefaultModels cfg w))) = Inr latest" "latest \<noteq> []"
  shows "fst (getAvailableModels cfg w) =
     Inr (map snd (fst (overlayModels latest (addDefaults (fst (getDefaultModels cfg w)))
        (snd (fetchLatestModels cfg (snd (getDefaultModels cfg w)))))))"
  using assms
  by (cases "fetchLatestModels cfg (snd (getDefaultModels cfg w))")
     (simp add: getAvailableModels_def getAvailableModelsFrom_def split_def Let_def)

lemma getAvailableModels_empty:
  assumes "fst (fetchLatestModels cfg (snd (getDefaultModels cfg w))) = Inr []"
  shows "fst (getAvailableModels cfg w) = Inr (fst (getDefaultModels cfg w))"
  using assms
  by (cases "fetchLatestModels cfg (snd (getDefaultModels cfg w))")
     (simp add: getAvailableModels_def getAvailableModelsFrom_def split_def Let_def)

text \<open>
  C4 (amended): with \<open>defaults\<close> the list of getDefaultModels and \<open>latest\<close> the list that
  fetchLatestModels yields, getAvailableModels returns a list that
  \<^item> has unique ids whenever \<open>latest\<close> is not empty or the configured default ids are
    pairwise distinct;
  \<^item> when \<open>latest\<close> is not empty, has the ids of the defaults followed by those of the
    fetched models, each at the place of its first insertion; every entry is a default
    model whose id was not fetched, or the overlay of a fetched model at a reading of the
    clock made after the two readings that precede the merge;
  \<^item> the overlay of a fetched model takes name from the fetched name when that is a
    non-empty string, else from info.name when that is a non-empty string, else its id;
    created from the fetched created when that is not 0, else from info.created_at when
    that is not 0, else the current epoch seconds; owned_by from the fetched owned_by when
    non-empty, else info.user_id when non-empty, else "z.ai";
  \<^item> when exactly one model is fetched, its id is not among the default ids and those are
    pairwise distinct, is the defaults followed by the overlay of that model: its length
    is that of the defaults plus one.
\<close>

theorem C4_merged_model_list:
  assumes "fst (fetchLatestModels cfg (snd (getDefaultModels cfg w))) = Inr latest"
  shows "\<exists>result.
     fst (getAvailableModels cfg w) = Inr result
     \<and> (latest \<noteq> [] \<or> distinct (map model_id (fst (getDefaultModels cfg w))) \<longrightarrow>
          distinct (map model_id result))
     \<and> (latest \<noteq> [] \<longrightarrow>
          map model_id result =
            insertionOrder (map model_id (fst (getDefaultModels cfg w)) @ map model_id latest)
          \<and> (\<forall>e \<in> set result.
                (e \<in> set (fst (getDefaultModels cfg w)) \<and> model_id e \<notin> model_id ` set latest)
                \<or> (\<exists>m \<in> set latest. \<exists>j. e = overlaySpec m (int (clock w (j + 2) div 1000)))))
     \<and> (\<forall>m. latest = [m] \<and> model_id m \<notin> model_id ` set (fst (getDefaultModels cfg w))
              \<and> distinct (map model_id (fst (getDefaultModels cfg w))) \<longrightarrow>
          result = fst (getDefaultModels cfg w) @ [overlaySpec m (int (clock w 2 div 1000))]
          \<and> length result = length (fst (getDefaultModels cfg w)) + 1)"
proof (cases "latest = []")
  case True
  with assms have "fst (getAvailableModels cfg w) = Inr (fst (getDefaultModels cfg w))"
    by (simp add: getAvailableModels_empty)
  with True show ?thesis by simp
next
  case False
  define defaults where "defaults = fst (getDefaultModels cfg w)"
  define w2 where "w2 = snd (fetchLatestModels cfg (snd (getDefaultModels cfg w)))"
  define modelMap where "modelMap = fst (overlayModels latest (addDefaults defaults) w2)"
  have r: "fst (getAvailableModels cfg w) = Inr (map snd modelMap)"
    unfolding modelMap_def defaults_def w2_def
    using assms False by (rule getAvailableModels_nonempty)
  have eq: "(modelMap, snd (overlayModels latest (addDefaults defaults) w2)) =
      overlayModels latest (addDefaults defaults) w2"
    by (simp add: modelMap_def)
  note o = overlay_result [OF eq]
  have ids: "map model_id (map snd modelMap) =
      insertionOrder (map model_id defaults @ map model_id latest)"
    by (rule o(1))
  then have dist: "distinct (map model_id (map snd modelMap))"
    by (simp add: insertionOrder_distinct)
  have c2: "clock w2 0 = clock w 2"
    by (simp add: w2_def clock_fetchLatestModels clock_getDefaultModels numeral_2_eq_2)
  have single: "map snd modelMap = defaults @ [overlaySpec m (int (clock w 2 div 1000))]
      \<and> length (map snd modelMap) = length defaults + 1"
    if "latest = [m]" "model_id m \<notin> model_id ` set defaults" "distinct (map model_id defaults)"
    for m
    using overlay_single [OF that(3) that(2), of w2] that(1)
    by (simp add: modelMap_def c2)
  have cw2: "clock w2 = (\<lambda>i. clock w (i + 2))"
    by (simp add: w2_def clock_fetchLatestModels clock_getDefaultModels)
  have ents: "\<forall>e \<in> set (map snd modelMap).
      (e \<in> set defaults \<and> model_id e \<notin> model_id ` set latest)
      \<or> (\<exists>m \<in> set latest. \<exists>j. e = overlaySpec m (int (clock w (j + 2) div 1000)))"
  proof
    fix e assume "e \<in> set (map snd modelMap)"
    with o(2) have "(e \<in> set defaults \<and> model_id e \<notin> model_id ` set latest)
        \<or> (\<exists>m \<in> set latest. \<exists>v j. clock v = (\<lambda>i. clock w2 (i + j))
               \<and> e = fst (mergedEntry m v))"
      by blast
    then show "(e \<in> set defaults \<and> model_id e \<notin> model_id ` set latest)
        \<or> (\<exists>m \<in> set latest. \<exists>j. e = overlaySpec m (int (clock w (j + 2) div 1000)))"
    proof
      assume "e \<in> set defaults \<and> model_id e \<notin> model_id ` set latest"
      then show ?thesis by blast
    next
      assume "\<exists>m \<in> set latest. \<exists>v j. clock v = (\<lambda>i. clock w2 (i + j))
               \<and> e = fst (mergedEntry m v)"
      then obtain m v j where m: "m \<in> set latest"
        and cv: "clock v = (\<lambda>i. clock w2 (i + j))" and e: "e = fst (mergedEntry m v)"
        by blast
      from cv cw2 have "clock v 0 = clock w (j + 2)" by simp
      with e have "e = overlaySpec m (int (clock w (j + 2) div 1000))"
        by (simp add: mergedEntry_overlaySpec)
      with m show ?thesis by blast
    qed
  qed
  show ?thesis
    using r dist ids ents single False unfolding defaults_def [symmetric]
    by (intro exI [of _ "map snd modelMap"]) blast
qed

lemma fetchLatestModels_exampleNet:
  assumes "CLIENT_HEADERS_Origin cfg = ''https://chat.z.ai''" "\<forall>k. network w k = exampleNet ms"
  shows "fst (fetchLatestModels cfg w) = Inr ms"
proof -
  obtain request where
    u: "req_url request = plainURL (CLIENT_HEADERS_Origin cfg @ ''/api/v1/auths/'')"
    and e: "fst (getAnonymousToken cfg w) = tokenOf (network w 0 request)"
    using getAnonymousToken_eq by blast
  have t: "fst (getAnonymousToken cfg w) = Inr ''anonymous-token''"
    using assms u e by (simp add: exampleNet_def plainURL_def tokenOf_def ok_def)
  show ?thesis
    using assms t
    by (simp add: fetchLatestModels_eq modelsRequest_url exampleNet_def plainURL_def
        modelsOf_def ok_def)
qed

lemma fetchLatestModels_example:
  "fst (fetchLatestModels exampleConfig
          (snd (getDefaultModels exampleConfig (exampleWorld r (exampleNet ms))))) = Inr ms"
  by (rule fetchLatestModels_exampleNet)
     (simp_all add: exampleConfig_def getDefaultModels_frame exampleWorld_network)

lemma exampleDefaults_eq:
  "fst (getDefaultModels exampleConfig (exampleWorld r net)) = exampleDefaults"
  by (simp add: getDefaultModels_example exampleDefaults_def)

lemma exampleDefaults_ids:
  "map model_id exampleDefaults =
     [''GLM-4.5'', ''GLM-4.5-Thinking'', ''GLM-4.5-Search'', ''GLM-4.5-Air'',
      ''GLM-4.6'', ''GLM-4.6-Thinking'', ''GLM-4.6-Search'']"
  by (simp add: exampleDefaults_def defaultModel_def)

lemma getAvailableModels_example_single:
  assumes "model_id m = ''X''"
  shows "fst (getAvailableModels exampleConfig (exampleWorld r (exampleNet [m]))) =
     Inr (exampleDefaults @ [overlaySpec m 1700000000])"
proof -
  let ?w = "exampleWorld r (exampleNet [m])"
  have c: "clock (snd (fetchLatestModels exampleConfig (snd (getDefaultModels exampleConfig ?w)))) 0
      = 1700000000002"
    by (simp add: clock_fetchLatestModels clock_getDefaultModels exampleWorld_def)
  have d: "distinct (map model_id exampleDefaults)"
    by (simp add: exampleDefaults_ids)
  have "model_id m \<notin> set (map model_id exampleDefaults)"
    unfolding exampleDefaults_ids assms by simp
  then have n: "model_id m \<notin> model_id ` set exampleDefaults"
    by simp
  show ?thesis
    using getAvailableModels_nonempty [OF fetchLatestModels_example, of "[m]" r]
      overlay_single [OF d n]
    by (simp add: exampleDefaults_eq c)
qed

text \<open>
  C4 as stated fails: a fetched model whose name is the empty string, whose created is 0
  and whose owned_by is the empty string has these fields, and its merged entry takes
  none of them: name, created and owned_by come from its info object.
\<close>

theorem C4_falsy_fields_counterexample:
  "fst (getAvailableModels exampleConfig (exampleWorld 5 (exampleNet [fetchedFalsy]))) =
     Inr (exampleDefaults @
          [\<lparr>model_id = ''X'', name = Some ''Foo'', display_name = None, created = Some 5,
            owned_by = Some ''u-1'', info = None, other_fields = []\<rparr>])
   \<and> name fetchedFalsy = Some [] \<and> created fetchedFalsy = Some 0
   \<and> owned_by fetchedFalsy = Some []"
proof -
  have "model_id fetchedFalsy = ''X''" by (simp add: fetchedFalsy_def)
  from getAvailableModels_example_single [OF this, of 5] show ?thesis
    by (simp add: overlaySpec_def fetchedFalsy_def)
qed

text \<open>
  The theorem on the test of the specification: the fetch gives the one model
  \<open>{id: "X", name: "Foo"}\<close>, and the result is the seven defaults followed by the entry
  with id "X", name "Foo" and owner "z.ai".
\<close>

theorem C4_merged_model_list_witness:
  "fst (fetchLatestModels exampleConfig
         (snd (getDefaultModels exampleConfig (exampleWorld 5 (exampleNet [fetchedNew]))))) =
     Inr [fetchedNew]
   \<and> fst (getAvailableModels exampleConfig (exampleWorld 5 (exampleNet [fetchedNew]))) =
       Inr (exampleDefaults @
            [\<lparr>model_id = ''X'', name = Some ''Foo'', display_name = None,
              created = Some 1700000000, owned_by = Some ''z.ai'', info = None,
              other_fields = []\<rparr>])
   \<and> length (exampleDefaults @ [overlaySpec fetchedNew 1700000000]) = 8
   \<and> distinct (map model_id (exampleDefaults @ [overlaySpec fetchedNew 1700000000]))"
proof -
  let ?w = "exampleWorld 5 (exampleNet [fetchedNew])"
  have f: "fst (fetchLatestModels exampleConfig (snd (getDefaultModels exampleConfig ?w))) =
      Inr [fetchedNew]"
    by (rule fetchLatestModels_example)
  have d: "distinct (map model_id exampleDefaults)"
    by (simp add: exampleDefaults_ids)
  have n: "model_id fetchedNew \<notin> model_id ` set exampleDefaults"
  proof -
    have "model_id fetchedNew \<notin> set (map model_id exampleDefaults)"
      unfolding exampleDefaults_ids by (simp add: fetchedNew_def)
    then show ?thesis by simp
  qed
  have c: "int (clock ?w 2 div 1000) = 1700000000"
    by (simp add: exampleWorld_def)
  have o: "overlaySpec fetchedNew 1700000000 =
      \<lparr>model_id = ''X'', name = Some ''Foo'', display_name = None,
       created = Some 1700000000, owned_by = Some ''z.ai'', info = None, other_fields = []\<rparr>"
    by (simp add: overlaySpec_def fetchedNew_def)
  from C4_merged_model_list [OF f] obtain result where
    r: "fst (getAvailableModels exampleConfig ?w) = Inr result"
    and u: "distinct (map model_id result)"
    and s: "\<forall>m. [fetchedNew] = [m]
              \<and> model_id m \<notin> model_id ` set (fst (getDefaultModels exampleConfig ?w))
              \<and> distinct (map model_id (fst (getDefaultModels exampleConfig ?w))) \<longrightarrow>
          result = fst (getDefaultModels exampleConfig ?w) @ [overlaySpec m (int (clock ?w 2 div 1000))]
          \<and> length result = length (fst (getDefaultModels exampleConfig ?w)) + 1"
    by blast
  from s d n have "result = exampleDefaults @ [overlaySpec fetchedNew 1700000000]
      \<and> length result = length exampleDefaults + 1"
    unfolding exampleDefaults_eq c by blast
  moreover have "length exampleDefaults = 7" by (simp add: exampleDefaults_def)
  ultimately show ?thesis using f r u by (simp add: o)
qed

text \<open>
  Why the unique ids of C4 need a hypothesis when nothing is fetched: the default list is
  returned as it is, and two configured names may be the same.
\<close>

lemma default_ids_may_repeat:
  "fst (getAvailableModels (exampleConfig\<lparr>PRIMARY_MODEL_NEW := ''GLM-4.5''\<rparr>)
          (exampleWorld 5 offline)) = Inr result \<Longrightarrow>
   \<not> distinct (map model_id result)"
proof -
  assume a: "fst (getAvailableModels (exampleConfig\<lparr>PRIMARY_MODEL_NEW := ''GLM-4.5''\<rparr>)
          (exampleWorld 5 offline)) = Inr result"
  have "fst (getAvailableModels (exampleConfig\<lparr>PRIMARY_MODEL_NEW := ''GLM-4.5''\<rparr>)
          (exampleWorld 5 offline)) =
      Inr (fst (getDefaultModels (exampleConfig\<lparr>PRIMARY_MODEL_NEW := ''GLM-4.5''\<rparr>)
          (exampleWorld 5 offline)))"
    by (rule getAvailableModels_empty) (rule fetchLatestModels_offline)
  with a have "result = fst (getDefaultModels (exampleConfig\<lparr>PRIMARY_MODEL_NEW := ''GLM-4.5''\<rparr>)
          (exampleWorld 5 offline))"
    by simp
  then show ?thesis
    by (simp add: getDefaultModels_def Date_now_def split_def Let_def defaultModel_def
        exampleConfig_def)
qed

text \<open>
  C9: every entry of the result of getAvailableModels that comes from a live-fetched model
  (its id is the id of a fetched model, the fetched list being non-empty) is the overlay
  of a fetched model and consists of exactly the four fields id, name, created and
  owned_by: display_name, info and every other field of the fetched model are dropped.
\<close>

theorem C9_overlay_drops_other_fields:
  assumes "fst (fetchLatestModels cfg (snd (getDefaultModels cfg w))) = Inr latest"
    and "latest \<noteq> []"
    and "fst (getAvailableModels cfg w) = Inr result"
    and "e \<in> set result"
    and "model_id e \<in> model_id ` set latest"
  shows "(\<exists>m \<in> set latest. \<exists>w'. e = fst (mergedEntry m w'))
     \<and> name e \<noteq> None \<and> created e \<noteq> None \<and> owned_by e \<noteq> None
     \<and> display_name e = None \<and> info e = None \<and> other_fields e = []"
proof -
  define defaults where "defaults = fst (getDefaultModels cfg w)"
  define w2 where "w2 = snd (fetchLatestModels cfg (snd (getDefaultModels cfg w)))"
  define modelMap where "modelMap = fst (overlayModels latest (addDefaults defaults) w2)"
  have "fst (getAvailableModels cfg w) = Inr (map snd modelMap)"
    unfolding modelMap_def defaults_def w2_def
    using assms(1,2) by (rule getAvailableModels_nonempty)
  with assms(3) have r: "result = map snd modelMap" by simp
  have eq: "(modelMap, snd (overlayModels latest (addDefaults defaults) w2)) =
      overlayModels latest (addDefaults defaults) w2"
    by (simp add: modelMap_def)
  from overlay_result(2) [OF eq] assms(4,5) r
  obtain m v where m: "m \<in> set latest" and e: "e = fst (mergedEntry m v)"
    by blast
  have "name e \<noteq> None \<and> created e \<noteq> None \<and> owned_by e \<noteq> None
     \<and> display_name e = None \<and> info e = None \<and> other_fields e = []"
    unfolding e by (simp add: mergedEntry_overlaySpec overlaySpec_def)
  with m e show ?thesis by blast
qed

text \<open>
  The theorem on a fetched model that has a display name, an info object and one more
  field: its entry in the result has none of them.
\<close>

theorem C9_overlay_drops_other_fields_witness:
  "fst (fetchLatestModels exampleConfig
         (snd (getDefaultModels exampleConfig (exampleWorld 5 (exampleNet [fetchedFalsy]))))) =
     Inr [fetchedFalsy]
   \<and> [fetchedFalsy] \<noteq> []
   \<and> fst (getAvailableModels exampleConfig (exampleWorld 5 (exampleNet [fetchedFalsy]))) =
       Inr (exampleDefaults @ [overlaySpec fetchedFalsy 1700000000])
   \<and> overlaySpec fetchedFalsy 1700000000
        \<in> set (exampleDefaults @ [overlaySpec fetchedFalsy 1700000000])
   \<and> model_id (overlaySpec fetchedFalsy 1700000000) \<in> model_id ` set [fetchedFalsy]
   \<and> display_name fetchedFalsy = Some ''X model''
   \<and> display_name (overlaySpec fetchedFalsy 1700000000) = None
   \<and> info (overlaySpec fetchedFalsy 1700000000) = None
   \<and> other_fields (overlaySpec fetchedFalsy 1700000000) = []"
proof -
  let ?w = "exampleWorld 5 (exampleNet [fetchedFalsy])"
  let ?e = "overlaySpec fetchedFalsy 1700000000"
  have f: "fst (fetchLatestModels exampleConfig (snd (getDefaultModels exampleConfig ?w))) =
      Inr [fetchedFalsy]"
    by (rule fetchLatestModels_example)
  have n: "[fetchedFalsy] \<noteq> []" by simp
  have "model_id fetchedFalsy = ''X''" by (simp add: fetchedFalsy_def)
  then have r: "fst (getAvailableModels exampleConfig ?w) = Inr (exampleDefaults @ [?e])"
    by (rule getAvailableModels_example_single)
  have i: "?e \<in> set (exampleDefaults @ [?e])" by simp
  have j: "model_id ?e \<in> model_id ` set [fetchedFalsy]" by (simp add: overlaySpec_def)
  from C9_overlay_drops_other_fields [OF f n r i j] f r i j show ?thesis
    by (simp add: fetchedFalsy_def)
qed

section \<open>Claim C10: the transformation of thinking content\<close>

lemma firstOccurrence_Some:
  "firstOccurrence sep s = Some (before, rest) \<Longrightarrow> s = before @ sep @ rest"
proof (induction s arbitrary: before)
  case Nil
  then show ?case by simp
next
  case (Cons c cs)
  show ?case
  proof (cases "prefix sep (c # cs)")
    case True
    then obtain zs where z: "c # cs = sep @ zs" by (auto simp: prefix_def)
    from True Cons.prems have "before = []" "rest = drop (length sep) (c # cs)"
      by simp_all
    then show ?thesis by (simp add: z)
  next
    case False
    with Cons.prems obtain b where "firstOccurrence sep cs = Some (b, rest)" "before = c # b"
      by (auto split: option.splits)
    with Cons.IH [of b] show ?thesis by simp
  qed
qed

lemma wellFormed_literal: "wellFormed (literal lit)"
  by (auto simp: wellFormed_def literal_def prefix_length_le split: if_splits)

lemma wellFormed_summaryBlock: "wellFormed summaryBlock"
proof (unfold wellFormed_def, intro allI impI)
  fix s n assume a: "summaryBlock s = Some n"
  then have p: "prefix ''<summary>'' s"
    by (simp add: summaryBlock_def split: if_splits)
  then obtain zs where s: "s = ''<summary>'' @ zs" by (auto simp: prefix_def)
  from a p obtain inner rest where
    f: "firstOccurrence ''</summary>'' (drop (length ''<summary>'') s) = Some (inner, rest)"
    and n: "n = length ''<summary>'' + length inner + length ''</summary>''"
    by (auto simp: summaryBlock_def split: option.splits)
  from f s have "zs = inner @ ''</summary>'' @ rest"
    using firstOccurrence_Some [of "''</summary>''" zs inner rest] by simp
  with s n show "0 < n \<and> n \<le> length s" by simp
qed

lemma wellFormed_detailsOpen: "wellFormed detailsOpen"
  by (auto simp: wellFormed_def detailsOpen_def Let_def split: if_splits)

lemma singlePass_Cons:
  assumes "m (c # s) = None" "singlePass m rep s out"
  shows "singlePass m rep (c # s) (c # out)"
  using assms(2)
proof (cases rule: singlePass.cases)
  case noMatch
  have "\<forall>i<length (c # s). m (drop i (c # s)) = None"
  proof (intro allI impI)
    fix i assume "i < length (c # s)"
    then show "m (drop i (c # s)) = None"
      using assms(1) noMatch(2) by (cases i) auto
  qed
  then have "singlePass m rep (c # s) (c # s)" by (rule singlePass.noMatch)
  with noMatch show ?thesis by simp
next
  case (match gap x rest out')
  have "\<forall>i<length (c # gap). m (drop i ((c # gap) @ x @ rest)) = None"
  proof (intro allI impI)
    fix i assume "i < length (c # gap)"
    then show "m (drop i ((c # gap) @ x @ rest)) = None"
      using assms(1) match(1,3) by (cases i) auto
  qed
  from singlePass.match [OF this match(4) match(5) match(6)] match(1,2)
  show ?thesis by simp
qed

lemma replaceMatches_singlePass:
  "wellFormed m \<Longrightarrow> singlePass m rep s (replaceMatches m rep s)"
proof (induction m rep s rule: replaceMatches.induct)
  case (1 m rep)
  show ?case by (simp add: singlePass.noMatch)
next
  case (2 m rep c cs)
  show ?case
  proof (cases "m (c # cs)")
    case None
    with "2.IH"(1) "2.prems" show ?thesis
      by (simp add: singlePass_Cons)
  next
    case (Some n)
    with "2.prems" have "0 < n \<and> n \<le> length (c # cs)"
      unfolding wellFormed_def by blast
    then have n: "0 < n" "n \<le> length (c # cs)" by blast+
    define x where "x = take n (c # cs)"
    define rest where "rest = drop n (c # cs)"
    have xr: "c # cs = x @ rest" by (simp add: x_def rest_def)
    have lx: "length x = n" using n by (simp add: x_def)
    have r: "rest = drop (n - 1) cs" using n by (cases n) (simp_all add: rest_def)
    have x0: "x \<noteq> []" using lx n by auto
    have ih: "singlePass m rep rest (replaceMatches m rep rest)"
      using "2.IH"(2) [OF Some] "2.prems" r by simp
    have "singlePass m rep ([] @ x @ rest) ([] @ rep @ replaceMatches m rep rest)"
      by (rule singlePass.match) (use x0 Some xr lx ih in simp_all)
    then have sp: "singlePass m rep (c # cs) (rep @ replaceMatches m rep rest)"
      by (simp add: xr)
    have "replaceMatches m rep (c # cs) = rep @ replaceMatches m rep rest"
      using Some r by simp
    with sp show ?thesis by simp
  qed
qed

lemma trimmed_trim: "trimmed (trim s)"
proof -
  define a where "a = dropWhile isWhiteSpace s"
  define b where "b = dropWhile isWhiteSpace (rev a)"
  have t: "trim s = rev b" by (simp add: trim_def a_def b_def)
  show ?thesis
  proof (cases "b = []")
    case True
    with t show ?thesis by (simp add: trimmed_def)
  next
    case False
    then have hb: "\<not> isWhiteSpace (hd b)"
      unfolding b_def using hd_dropWhile by blast
    from False have an: "a \<noteq> []" by (auto simp: b_def)
    then have ha: "\<not> isWhiteSpace (hd a)"
      unfolding a_def using hd_dropWhile by blast
    obtain ws where "rev a = ws @ b"
      unfolding b_def by (metis takeWhile_dropWhile_id)
    with False have "last b = last (rev a)" by simp
    with an have lb: "last b = hd a" by (simp add: last_rev)
    have "hd (rev b) = last b" using False by (simp add: hd_rev)
    moreover have "last (rev b) = hd b" using False by (simp add: last_rev)
    ultimately have "\<not> isWhiteSpace (hd (rev b))" "\<not> isWhiteSpace (last (rev b))"
      using ha hb lb by simp_all
    moreover have "rev b \<noteq> []" using False by simp
    ultimately show ?thesis
      unfolding t trimmed_def by (cases "rev b") auto
  qed
qed

text \<open>The three matchers are the three kinds of regular expression of the source.\<close>

lemma literal_iff:
  "literal lit s = Some n \<longleftrightarrow> lit \<noteq> [] \<and> n = length lit \<and> (\<exists>rest. s = lit @ rest)"
  by (auto simp: literal_def prefix_def)

lemma firstOccurrence_first:
  "firstOccurrence sep s = Some (before, rest) \<Longrightarrow> i < length before \<Longrightarrow>
   \<not> prefix sep (drop i s)"
proof (induction s arbitrary: before i)
  case Nil
  then show ?case by simp
next
  case (Cons c cs)
  show ?case
  proof (cases "prefix sep (c # cs)")
    case True
    with Cons.prems show ?thesis by simp
  next
    case False
    with Cons.prems obtain b where b: "firstOccurrence sep cs = Some (b, rest)" "before = c # b"
      by (auto split: option.splits)
    show ?thesis
    proof (cases i)
      case 0
      with False show ?thesis by simp
    next
      case (Suc j)
      with Cons.prems(2) b(2) have "j < length b" by simp
      from Cons.IH [OF b(1) this] Suc show ?thesis by simp
    qed
  qed
qed

lemma firstOccurrence_None:
  "firstOccurrence sep s = None \<Longrightarrow> i < length s \<Longrightarrow> \<not> prefix sep (drop i s)"
proof (induction s arbitrary: i)
  case Nil
  then show ?case by simp
next
  case (Cons c cs)
  from Cons.prems(1) have n: "\<not> prefix sep (c # cs)" "firstOccurrence sep cs = None"
    by (auto split: if_splits option.splits)
  show ?case
  proof (cases i)
    case 0
    with n show ?thesis by simp
  next
    case (Suc j)
    with Cons.prems(2) have "j < length cs" by simp
    from Cons.IH [OF n(2) this] Suc show ?thesis by simp
  qed
qed

lemma summaryBlock_shape:
  assumes "summaryBlock s = Some n"
  shows "\<exists>inner rest. s = ''<summary>'' @ inner @ ''</summary>'' @ rest
           \<and> n = length (''<summary>'' @ inner @ ''</summary>'')
           \<and> (\<forall>i<length inner. \<not> prefix ''</summary>'' (drop i (inner @ ''</summary>'' @ rest)))"
proof -
  from assms have p: "prefix ''<summary>'' s"
    by (simp add: summaryBlock_def split: if_splits)
  then obtain zs where s: "s = ''<summary>'' @ zs" by (auto simp: prefix_def)
  from assms p obtain inner rest where
    f: "firstOccurrence ''</summary>'' (drop (length ''<summary>'') s) = Some (inner, rest)"
    and n: "n = length ''<summary>'' + length inner + length ''</summary>''"
    by (auto simp: summaryBlock_def split: option.splits)
  from f s have f': "firstOccurrence ''</summary>'' zs = Some (inner, rest)" by simp
  then have z: "zs = inner @ ''</summary>'' @ rest" by (rule firstOccurrence_Some)
  have "\<forall>i<length inner. \<not> prefix ''</summary>'' (drop i (inner @ ''</summary>'' @ rest))"
    using firstOccurrence_first [OF f'] z by blast
  with s z n show ?thesis by auto
qed

lemma summaryBlock_complete:
  assumes "s = ''<summary>'' @ inner @ ''</summary>'' @ rest"
  shows "summaryBlock s \<noteq> None"
proof -
  have "firstOccurrence ''</summary>'' (inner @ ''</summary>'' @ rest) \<noteq> None"
  proof
    assume n: "firstOccurrence ''</summary>'' (inner @ ''</summary>'' @ rest) = None"
    have "length inner < length (inner @ ''</summary>'' @ rest)" by simp
    from firstOccurrence_None [OF n this] show False by simp
  qed
  with assms show ?thesis
    by (auto simp: summaryBlock_def)
qed

lemma detailsOpen_iff:
  "detailsOpen s = Some n \<longleftrightarrow>
     (\<exists>attrs rest. s = ''<details'' @ attrs @ ''>'' @ rest \<and> CHR ''>'' \<notin> set attrs
        \<and> n = length (''<details'' @ attrs @ ''>''))"
proof
  assume a: "detailsOpen s = Some n"
  then have p: "prefix ''<details'' s"
    by (simp add: detailsOpen_def split: if_splits)
  then obtain zs where s: "s = ''<details'' @ zs" by (auto simp: prefix_def)
  define attrs where "attrs = takeWhile (\<lambda>c. c \<noteq> CHR ''>'') zs"
  from a s have l: "length attrs < length zs" and n: "n = length ''<details'' + length attrs + 1"
    by (auto simp: detailsOpen_def attrs_def Let_def split: if_splits)
  have z: "zs = attrs @ dropWhile (\<lambda>c. c \<noteq> CHR ''>'') zs"
    by (simp add: attrs_def)
  have ne: "dropWhile (\<lambda>c. c \<noteq> CHR ''>'') zs \<noteq> []"
  proof
    assume "dropWhile (\<lambda>c. c \<noteq> CHR ''>'') zs = []"
    with z have "length zs = length attrs" by (metis append_Nil2)
    with l show False by simp
  qed
  then have "hd (dropWhile (\<lambda>c. c \<noteq> CHR ''>'') zs) = CHR ''>''"
    using hd_dropWhile [of "\<lambda>c. c \<noteq> CHR ''>''" zs] by simp
  with ne obtain rest where r: "dropWhile (\<lambda>c. c \<noteq> CHR ''>'') zs = CHR ''>'' # rest"
    by (cases "dropWhile (\<lambda>c. c \<noteq> CHR ''>'') zs") auto
  have "CHR ''>'' \<notin> set attrs"
    unfolding attrs_def by (auto dest: set_takeWhileD)
  moreover have "s = ''<details'' @ attrs @ ''>'' @ rest"
    using s z r by simp
  ultimately show "\<exists>attrs rest. s = ''<details'' @ attrs @ ''>'' @ rest \<and> CHR ''>'' \<notin> set attrs
        \<and> n = length (''<details'' @ attrs @ ''>'')"
    using n by auto
next
  assume "\<exists>attrs rest. s = ''<details'' @ attrs @ ''>'' @ rest \<and> CHR ''>'' \<notin> set attrs
        \<and> n = length (''<details'' @ attrs @ ''>'')"
  then obtain attrs rest where s: "s = ''<details'' @ attrs @ ''>'' @ rest"
    and a: "CHR ''>'' \<notin> set attrs" and n: "n = length (''<details'' @ attrs @ ''>'')"
    by blast
  from a have "takeWhile (\<lambda>c. c \<noteq> CHR ''>'') (attrs @ ''>'' @ rest) = attrs"
    by (induction attrs) auto
  with s n show "detailsOpen s = Some n"
    by (simp add: detailsOpen_def)
qed

text \<open>
  C10: for every input string and configuration transformThinkingContent returns a
  trimmed string (no leading and no trailing white space). Its result is obtained from
  the input by one replacement pass for each pattern, in this order: every non-greedy
  <summary>...</summary> block removed, then every </thinking>, then every <Full>, then
  every </Full>; the text trimmed; when the mode is "think", every <details...> tag
  rewritten to <span> and then every </details> to </span>, and when it is "strip", both
  removed (any other mode leaves them); at last the quote prefixes of the lines are
  removed and the text is trimmed again.
\<close>

theorem C10_transform_thinking_content:
  "let mode = THINKING_PROCESSING cfg;
       c1 = replaceMatches summaryBlock [] s;
       c2 = replaceMatches (literal ''</thinking>'') [] c1;
       c3 = replaceMatches (literal ''<Full>'') [] c2;
       c4 = replaceMatches (literal ''</Full>'') [] c3;
       d1 = replaceMatches detailsOpen (if mode = ''think'' then ''<span>'' else []) (trim c4);
       d2 = replaceMatches (literal ''</details>'') (if mode = ''think'' then ''</span>'' else []) d1;
       c5 = (if mode = ''think'' \<or> mode = ''strip'' then d2 else trim c4)
   in trimmed (transformThinkingContent cfg s)
    \<and> singlePass summaryBlock [] s c1
    \<and> singlePass (literal ''</thinking>'') [] c1 c2
    \<and> singlePass (literal ''<Full>'') [] c2 c3
    \<and> singlePass (literal ''</Full>'') [] c3 c4
    \<and> singlePass detailsOpen (if mode = ''think'' then ''<span>'' else []) (trim c4) d1
    \<and> singlePass (literal ''</details>'') (if mode = ''think'' then ''</span>'' else []) d1 d2
    \<and> transformThinkingContent cfg s =
        trim (replaceMatches (literal (newline @ ''> '')) newline (removeQuotePrefix True c5))"
proof -
  have e: "transformThinkingContent cfg s =
      trim (replaceMatches (literal (newline @ ''> '')) newline (removeQuotePrefix True
        (if THINKING_PROCESSING cfg = ''think'' \<or> THINKING_PROCESSING cfg = ''strip'' then
           replaceMatches (literal ''</details>'')
             (if THINKING_PROCESSING cfg = ''think'' then ''</span>'' else [])
             (replaceMatches detailsOpen
                (if THINKING_PROCESSING cfg = ''think'' then ''<span>'' else [])
                (trim (replaceMatches (literal ''</Full>'') []
                   (replaceMatches (literal ''<Full>'') []
                      (replaceMatches (literal ''</thinking>'') []
                         (replaceMatches summaryBlock [] s))))))
         else trim (replaceMatches (literal ''</Full>'') []
                   (replaceMatches (literal ''<Full>'') []
                      (replaceMatches (literal ''</thinking>'') []
                         (replaceMatches summaryBlock [] s)))))))"
    by (simp add: transformThinkingContent_def Let_def)
  have t: "trimmed (transformThinkingContent cfg s)"
    by (simp add: transformThinkingContent_def Let_def trimmed_trim)
  show ?thesis
    unfolding Let_def
    using e t replaceMatches_singlePass [OF wellFormed_summaryBlock]
      replaceMatches_singlePass [OF wellFormed_literal]
      replaceMatches_singlePass [OF wellFormed_detailsOpen]
    by presburger
qed

text \<open>The theorem on that block, in the mode "think" and in the mode "strip".\<close>

theorem C10_transform_thinking_content_witness:
  "trimmed (transformThinkingContent exampleConfig exampleThinking)
   \<and> transformThinkingContent exampleConfig exampleThinking =
     ''<span>'' @ newline @ ''first'' @ newline @ ''second'' @ newline @ ''</span>'' @ newline @
     ''answer''
   \<and> transformThinkingContent (exampleConfig\<lparr>THINKING_PROCESSING := ''strip''\<rparr>)
       exampleThinking =
     ''first'' @ newline @ ''second'' @ newline @ newline @ ''answer''"
proof -
  have t: "trimmed (transformThinkingContent exampleConfig exampleThinking)"
    using C10_transform_thinking_content [of exampleConfig exampleThinking]
    unfolding Let_def by blast
  have v1: "transformThinkingContent exampleConfig exampleThinking =
     ''<span>'' @ newline @ ''first'' @ newline @ ''second'' @ newline @ ''</span>'' @ newline @
     ''answer''"
    by code_simp
  have v2: "transformThinkingContent (exampleConfig\<lparr>THINKING_PROCESSING := ''strip''\<rparr>)
       exampleThinking =
     ''first'' @ newline @ ''second'' @ newline @ newline @ ''answer''"
    by code_simp
  from t v1 v2 show ?thesis by blast
qed

end
